theory Spec2Isabelle
  imports Main "HOL-Library.Char_ord" "HOL-Library.List_Lexorder"
begin

section \<open>Python strings\<close>

text \<open>
  A Python \<open>str\<close> is modelled as a \<open>string\<close> whose characters are the code points
  below 256. Comparison of two strings with \<open>>\<close> is Python's: lexicographic on the
  code points, a proper prefix being smaller; this is the order of
  \<open>HOL-Library.List_Lexorder\<close> over \<open>HOL-Library.Char_ord\<close>.
\<close>

text \<open>\<open>str.isspace\<close> on one character (the code points below 256 that Python counts
  as whitespace).\<close>

definition is_space :: "char \<Rightarrow> bool" where
  "is_space c = ((of_char c :: nat) \<in> {9, 10, 11, 12, 13, 28, 29, 30, 31, 32, 133, 160})"

text \<open>\<open>str.strip()\<close>: leading and trailing whitespace removed.\<close>

definition strip :: "string \<Rightarrow> string" where
  "strip s = rev (dropWhile is_space (rev (dropWhile is_space s)))"

text \<open>\<open>str.lower()\<close>, character by character.\<close>

definition lower_char :: "char \<Rightarrow> char" where
  "lower_char c =
     (let n = (of_char c :: nat)
      in if (65 \<le> n \<and> n \<le> 90) \<or> (192 \<le> n \<and> n \<le> 222 \<and> n \<noteq> 215)
         then char_of (n + 32) else c)"

definition lower :: "string \<Rightarrow> string" where
  "lower s = map lower_char s"

text \<open>\<open>str(n)\<close> for a Python int: decimal digits, with a sign when negative.\<close>

definition digit_char :: "nat \<Rightarrow> char" where
  "digit_char n = ''0123456789'' ! n"

fun str_nat :: "nat \<Rightarrow> string" where
  "str_nat n = (if n < 10 then [digit_char n] else str_nat (n div 10) @ [digit_char (n mod 10)])"

declare str_nat.simps [simp del]

definition str_int :: "int \<Rightarrow> string" where
  "str_int i = (if i < 0 then CHR ''-'' # str_nat (nat (- i)) else str_nat (nat i))"

text \<open>
  An optional string stands for the result of \<open>dict.get(key)\<close>: \<open>None\<close> when the key
  is absent or holds \<open>null\<close>. \<open>truthy\<close> is Python's truth value of such a result
  (\<open>None\<close> and the empty string are false); \<open>str_opt\<close> is how an f-string renders it.
\<close>

definition truthy :: "string option \<Rightarrow> bool" where
  "truthy v = (case v of None \<Rightarrow> False | Some s \<Rightarrow> s \<noteq> [])"

definition str_opt :: "string option \<Rightarrow> string" where
  "str_opt v = (case v of None \<Rightarrow> ''None'' | Some s \<Rightarrow> s)"

section \<open>Paths\<close>

text \<open>\<open>os.path.basename\<close> (POSIX): everything after the last slash.\<close>

definition basename :: "string \<Rightarrow> string" where
  "basename p = rev (takeWhile (\<lambda>c. c \<noteq> CHR ''/'') (rev p))"

text \<open>
  \<open>os.path.splitext(p)[1]\<close> (POSIX): the part of the last path component from its last
  dot on, unless only dots stand before that dot in the component.
\<close>

definition splitext_ext :: "string \<Rightarrow> string" where
  "splitext_ext p =
     (let name = basename p;
          tail = takeWhile (\<lambda>c. c \<noteq> CHR ''.'') (rev name);
          stem = take (length name - length tail - 1) name
      in if CHR ''.'' \<in> set name \<and> (\<exists>c \<in> set stem. c \<noteq> CHR ''.'')
         then CHR ''.'' # rev tail else [])"

text \<open>
  \<open>pathlib.Path(s).name\<close> (POSIX): the last component of the path, where empty
  components and \<open>.\<close> components do not count; empty when there is none.
\<close>

fun split_slash :: "string \<Rightarrow> string list" where
  "split_slash [] = [[]]"
| "split_slash (c # cs) =
     (if c = CHR ''/'' then [] # split_slash cs
      else (case split_slash cs of [] \<Rightarrow> [[c]] | p # ps \<Rightarrow> (c # p) # ps))"

definition path_name :: "string \<Rightarrow> string" where
  "path_name s =
     (case filter (\<lambda>p. p \<noteq> [] \<and> p \<noteq> ''.'') (split_slash s) of
        [] \<Rightarrow> []
      | p # ps \<Rightarrow> last (p # ps))"

text \<open>
  \<open>pathlib.Path(s).suffix\<close>: with \<open>i\<close> the index of the last dot of the name, the name
  from \<open>i\<close> on when \<open>0 < i < len(name) - 1\<close>, and empty otherwise.
\<close>

definition path_suffix :: "string \<Rightarrow> string" where
  "path_suffix s =
     (let name = path_name s;
          tail = takeWhile (\<lambda>c. c \<noteq> CHR ''.'') (rev name);
          i = length name - length tail - 1
      in if CHR ''.'' \<in> set name \<and> 0 < i \<and> i < length name - 1
         then drop i name else [])"

section \<open>Configuration\<close>

definition SUPPORTED_EXTENSIONS :: "string list" where
  "SUPPORTED_EXTENSIONS = [''.pdf'', ''.docx'', ''.txt'']"

section \<open>Data model of the synchronization service\<close>

text \<open>
  A document record of the remote source is a JSON dictionary, read only through \<open>get\<close>
  on the keys \<open>id\<close>, \<open>name\<close>, \<open>modified\<close>, \<open>author\<close> and \<open>workspace\<close>. Under each key
  there is nothing, or \<open>null\<close>, or a string.

  The code reads \<open>id\<close>, \<open>modified\<close>, \<open>author\<close> and \<open>workspace\<close> with \<open>get(key)\<close> only, which
  gives \<open>None\<close> for an absent key and for \<open>null\<close> alike, so these fields are optional
  strings. It reads \<open>name\<close> with a default as well (\<open>get("name", "")\<close>), which tells an
  absent key (the default) from \<open>null\<close> (\<open>None\<close>), so \<open>doc_name\<close> keeps the three cases.
\<close>

datatype json_str = Absent | Null | Str string

text \<open>\<open>get(key)\<close> and \<open>get(key, default)\<close> on such a field.\<close>

definition get_or_none :: "json_str \<Rightarrow> string option" where
  "get_or_none v = (case v of Absent \<Rightarrow> None | Null \<Rightarrow> None | Str s \<Rightarrow> Some s)"

definition get_or :: "json_str \<Rightarrow> string \<Rightarrow> string option" where
  "get_or v dflt = (case v of Absent \<Rightarrow> Some dflt | Null \<Rightarrow> None | Str s \<Rightarrow> Some s)"

record doc_info =
  doc_id :: "string option"
  doc_name :: json_str
  doc_modified :: "string option"
  doc_author :: "string option"
  doc_workspace :: "string option"

text \<open>The value stored under a document id in \<open>synced_documents\<close>.\<close>

record synced_entry =
  entry_name :: "string option"
  entry_modified :: "string option"
  entry_sync_date :: string

record failure_entry =
  fail_id :: "string option"
  fail_name :: "string option"
  fail_error :: "string option"

record sync_state =
  last_sync :: "string option"
  synced_documents :: "string \<rightharpoonup> synced_entry"
  failed_documents :: "failure_entry list"

section \<open>Exceptions and results\<close>

text \<open>
  A Python exception is a value; \<open>str_exn\<close> is \<open>str(e)\<close>. A call that may raise returns
  \<open>exn + 'a\<close>, with \<open>Inl\<close> for the exception raised.
\<close>

datatype exn = ValueError string | TypeError string | Exception string

fun str_exn :: "exn \<Rightarrow> string" where
  "str_exn (ValueError m) = m"
| "str_exn (TypeError m) = m"
| "str_exn (Exception m) = m"

section \<open>Eligibility\<close>

text \<open>
  \<open>is_document_supported\<close> builds \<open>Path(doc_info.get("name", ""))\<close>: when the name is
  \<open>null\<close>, \<open>Path(None)\<close> raises \<open>TypeError\<close>. Neither \<open>is_document_supported\<close> nor
  \<open>should_sync_document\<close> has a \<open>try\<close>, so both raise it.
\<close>

definition is_document_supported :: "doc_info \<Rightarrow> exn + bool" where
  "is_document_supported d =
     (case get_or (doc_name d) [] of
        None \<Rightarrow> Inl (TypeError ''expected str, bytes or os.PathLike object, not NoneType'')
      | Some filename \<Rightarrow>
          (let file_ext = lower (path_suffix filename)
           in Inr (file_ext \<in> set SUPPORTED_EXTENSIONS)))"

definition should_sync_document :: "doc_info \<Rightarrow> sync_state \<Rightarrow> exn + bool" where
  "should_sync_document d st =
     (case doc_id d of
        None \<Rightarrow> Inr False
      | Some k \<Rightarrow>
          if k = [] then Inr False
          else
            (case is_document_supported d of
               Inl e \<Rightarrow> Inl e
             | Inr supported \<Rightarrow>
                 if \<not> supported then Inr False
                 else (case synced_documents st k of
                         None \<Rightarrow> Inr True
                       | Some e \<Rightarrow>
                           (case (doc_modified d, entry_modified e) of
                              (Some last_modified, Some last_sync_modified) \<Rightarrow>
                                if last_modified \<noteq> [] \<and> last_sync_modified \<noteq> []
                                then Inr (last_modified > last_sync_modified)
                                else Inr True
                            | _ \<Rightarrow> Inr True))))"

section \<open>Chunking processor\<close>

text \<open>
  A value of a chunk's metadata dictionary, and how an f-string renders it. A chunk is a
  LangChain document: its text and its metadata.
\<close>

datatype mval = MNone | MStr string | MInt int

fun str_mval :: "mval \<Rightarrow> string" where
  "str_mval MNone = ''None''"
| "str_mval (MStr s) = s"
| "str_mval (MInt i) = str_int i"

definition mval_of :: "string option \<Rightarrow> mval" where
  "mval_of v = (case v of None \<Rightarrow> MNone | Some s \<Rightarrow> MStr s)"

record document =
  page_content :: string
  metadata :: "string \<rightharpoonup> mval"

text \<open>
  The collaborators of the engine, as the functions it calls:
  \<^item> \<open>clock n\<close> is what the \<open>n\<close>-th call of \<open>datetime.now().isoformat()\<close> returns;
  \<^item> \<open>download_document\<close> is the remote client's download: it raises, returns \<open>None\<close>,
    or returns the path of the temporary file it has written;
  \<^item> \<open>extract_text\<close> reads a file and returns its text, or raises;
  \<^item> \<open>split_text\<close> is the text splitter;
  \<^item> \<open>rag_pipeline\<close> is the optional knowledge-base pipeline, given by its
    \<open>add_documents\<close>.
\<close>

record add_result =
  success :: bool
  message :: string
  document_ids :: "string list"
  document_count :: nat

record env =
  clock :: "nat \<Rightarrow> string"
  download_document :: "string option \<Rightarrow> exn + string option"
  extract_text :: "string \<Rightarrow> exn + string"
  split_text :: "string \<Rightarrow> exn + string list"
  rag_pipeline :: "(document list \<Rightarrow> exn + add_result) option"

definition process_document :: "env \<Rightarrow> string \<Rightarrow> exn + document list" where
  "process_document E file_path =
     (case extract_text E file_path of
        Inl e \<Rightarrow> Inl e
      | Inr text \<Rightarrow>
          if strip text = [] then
            Inl (ValueError (''No text could be extracted from '' @ file_path))
          else
            (let filename = basename file_path;
                 md = [''source'' \<mapsto> MStr filename,
                       ''file_path'' \<mapsto> MStr file_path,
                       ''file_type'' \<mapsto> MStr (lower (splitext_ext filename))]
             in case split_text E text of
                  Inl e \<Rightarrow> Inl e
                | Inr chunks \<Rightarrow>
                    Inr (map (\<lambda>(i, chunk).
                               \<lparr>page_content = chunk,
                                metadata = md(''chunk_id'' \<mapsto> MInt (int i),
                                              ''total_chunks'' \<mapsto> MInt (int (length chunks)))\<rparr>)
                             (enumerate 0 chunks))))"

section \<open>Knowledge store\<close>

text \<open>
  \<open>VectorStore.add_documents\<close>: the identifiers it generates, and the call of the
  underlying store \<open>chroma\<close>, which raises (\<open>Some e\<close>) or accepts the batch.
\<close>

definition store_ids :: "document list \<Rightarrow> string list" where
  "store_ids documents =
     map (\<lambda>(i, doc).
            ''doc_'' @ str_nat i @ ''_''
              @ str_mval (case metadata doc ''source'' of None \<Rightarrow> MStr ''unknown'' | Some v \<Rightarrow> v)
              @ ''_''
              @ str_mval (case metadata doc ''chunk_id'' of None \<Rightarrow> MInt 0 | Some v \<Rightarrow> v))
         (enumerate 0 documents)"

definition vector_store_add_documents ::
  "(document list \<Rightarrow> string list \<Rightarrow> exn option) \<Rightarrow> document list \<Rightarrow> exn + string list" where
  "vector_store_add_documents chroma documents =
     (let ids = store_ids documents
      in case chroma documents ids of
           Some e \<Rightarrow> Inl (Exception (''Error adding documents to vector store: '' @ str_exn e))
         | None \<Rightarrow> Inr ids)"

text \<open>\<open>RAGPipeline.add_documents\<close>: it catches what the vector store raises.\<close>

definition rag_add_documents ::
  "(document list \<Rightarrow> string list \<Rightarrow> exn option) \<Rightarrow> document list \<Rightarrow> exn + add_result" where
  "rag_add_documents chroma documents =
     (case vector_store_add_documents chroma documents of
        Inr ids \<Rightarrow>
          Inr \<lparr>success = True,
               message = ''Successfully added '' @ str_nat (length documents) @ '' document chunks'',
               document_ids = ids,
               document_count = length documents\<rparr>
      | Inl e \<Rightarrow>
          Inr \<lparr>success = False,
               message = ''Error adding documents: '' @ str_exn e,
               document_ids = [],
               document_count = 0\<rparr>)"

section \<open>The world the engine acts on\<close>

text \<open>
  The effects of the engine are made explicit in a \<open>world\<close>: the number of clock readings
  taken so far, the lines of the activity log, the content of the sync-state file (\<open>None\<close>
  while the file does not exist) with the number of times it has been written, and the
  temporary files that exist. File operations themselves are taken to succeed, and the
  state file gives back the state that was written to it.
\<close>

record world =
  ticks :: nat
  log_file :: "string list"
  state_file :: "sync_state option"
  state_writes :: nat
  temp_files :: "string set"

definition get_sync_state :: "world \<Rightarrow> sync_state" where
  "get_sync_state w =
     (case state_file w of
        Some st \<Rightarrow> st
      | None \<Rightarrow> \<lparr>last_sync = None, synced_documents = Map.empty, failed_documents = []\<rparr>)"

definition save_sync_state :: "sync_state \<Rightarrow> world \<Rightarrow> world" where
  "save_sync_state st w = w\<lparr>state_file := Some st, state_writes := Suc (state_writes w)\<rparr>"

definition log_sync_activity :: "env \<Rightarrow> string \<Rightarrow> string \<Rightarrow> world \<Rightarrow> world" where
  "log_sync_activity E msg level w =
     (let timestamp = clock E (ticks w);
          log_entry = ''['' @ timestamp @ ''] '' @ level @ '': '' @ msg @ [CHR 0x0A]
      in w\<lparr>ticks := Suc (ticks w), log_file := log_file w @ [log_entry]\<rparr>)"

section \<open>Syncing one document\<close>

text \<open>The name \<open>sync_document\<close> works with, \<open>doc_info.get("name", f"document_{doc_id}")\<close>:
  \<open>None\<close> when the name is \<open>null\<close>. The messages render it with \<open>str_opt\<close>.\<close>

definition document_name :: "doc_info \<Rightarrow> string option" where
  "document_name d = get_or (doc_name d) (''document_'' @ str_opt (doc_id d))"

text \<open>The loop that adds the NetDocuments metadata to every chunk; each chunk reads the
  clock for its \<open>sync_date\<close>.\<close>

fun add_netdocuments_metadata ::
  "env \<Rightarrow> doc_info \<Rightarrow> string option \<Rightarrow> document list \<Rightarrow> world \<Rightarrow> document list \<times> world" where
  "add_netdocuments_metadata E d name [] w = ([], w)"
| "add_netdocuments_metadata E d name (doc # docs) w =
     (let doc' = doc\<lparr>metadata := (metadata doc)
                   (''netdocuments_id'' \<mapsto> mval_of (doc_id d),
                    ''netdocuments_name'' \<mapsto> mval_of name,
                    ''netdocuments_modified'' \<mapsto> mval_of (doc_modified d),
                    ''netdocuments_author'' \<mapsto> mval_of (doc_author d),
                    ''netdocuments_workspace'' \<mapsto> mval_of (doc_workspace d),
                    ''sync_date'' \<mapsto> MStr (clock E (ticks w)))\<rparr>;
          (docs', w') = add_netdocuments_metadata E d name docs (w\<lparr>ticks := Suc (ticks w)\<rparr>)
      in (doc' # docs', w'))"

text \<open>The body of the inner \<open>try\<close>: process the downloaded file and add its chunks to the
  knowledge base.\<close>

definition process_and_index ::
  "env \<Rightarrow> doc_info \<Rightarrow> string option \<Rightarrow> string \<Rightarrow> world
     \<Rightarrow> (exn + bool \<times> string option) \<times> world" where
  "process_and_index E d name temp_file_path w =
     (case process_document E temp_file_path of
        Inl e \<Rightarrow> (Inl e, w)
      | Inr documents \<Rightarrow>
          (let (documents', w1) = add_netdocuments_metadata E d name documents w;
               finished = (Inr (True, None),
                       log_sync_activity E
                         (''Successfully synced '' @ str_opt name @ '' (''
                            @ str_nat (length documents') @ '' chunks)'') ''INFO'' w1)
           in case rag_pipeline E of
                None \<Rightarrow> finished
              | Some add_documents \<Rightarrow>
                  (case add_documents documents' of
                     Inl e \<Rightarrow> (Inl e, w1)
                   | Inr result \<Rightarrow>
                       if \<not> success result then
                         (let error_msg = ''Failed to add '' @ str_opt name @ '' to knowledge base: ''
                                            @ message result
                          in (Inr (False, Some error_msg),
                              log_sync_activity E error_msg ''ERROR'' w1))
                       else finished)))"

text \<open>The body of the outer \<open>try\<close>: download, then the inner \<open>try\<close> with its \<open>finally\<close>, which
  removes the temporary file whatever the inner body returned or raised.\<close>

definition download_and_process ::
  "env \<Rightarrow> doc_info \<Rightarrow> string option \<Rightarrow> world \<Rightarrow> (exn + bool \<times> string option) \<times> world" where
  "download_and_process E d name w =
     (let w1 = log_sync_activity E
                 (''Syncing document: '' @ str_opt name @ '' (ID: '' @ str_opt (doc_id d) @ '')'')
                 ''INFO'' w
      in case download_document E (doc_id d) of
           Inl e \<Rightarrow> (Inl e, w1)
         | Inr None \<Rightarrow>
             (let error_msg = ''Failed to download document '' @ str_opt name
              in (Inr (False, Some error_msg), log_sync_activity E error_msg ''ERROR'' w1))
         | Inr (Some temp_file_path) \<Rightarrow>
             if temp_file_path = [] then
               (let error_msg = ''Failed to download document '' @ str_opt name
                in (Inr (False, Some error_msg), log_sync_activity E error_msg ''ERROR'' w1))
             else
               (let w2 = w1\<lparr>temp_files := insert temp_file_path (temp_files w1)\<rparr>;
                    (r, w3) = process_and_index E d name temp_file_path w2
                in (r, w3\<lparr>temp_files := temp_files w3 - {temp_file_path}\<rparr>)))"

text \<open>\<open>sync_document\<close>: the outer \<open>try\<close> with its \<open>except Exception\<close>, which turns whatever
  was raised into a failure with its message.\<close>

definition sync_document ::
  "env \<Rightarrow> doc_info \<Rightarrow> world \<Rightarrow> (exn + bool \<times> string option) \<times> world" where
  "sync_document E d w =
     (let name = document_name d
      in case download_and_process E d name w of
           (Inr r, w') \<Rightarrow> (Inr r, w')
         | (Inl e, w') \<Rightarrow>
             (let error_msg = ''Error syncing document '' @ str_opt name @ '': '' @ str_exn e
              in (Inr (False, Some error_msg), log_sync_activity E error_msg ''ERROR'' w')))"

section \<open>Syncing a batch\<close>

record sync_acc =
  acc_state :: sync_state
  acc_synced :: nat
  acc_failed :: nat
  acc_failed_docs :: "failure_entry list"

record sync_report =
  report_success :: bool
  synced_count :: nat
  failed_count :: nat
  report_failed_documents :: "failure_entry list"
  total_processed :: nat

text \<open>
  The \<open>for\<close> loop of \<open>sync_documents\<close>. Nothing in \<open>sync_documents\<close> catches an exception:
  one raised by \<open>should_sync_document\<close> or by \<open>sync_document\<close> leaves the loop and the
  function. The entry is stored under the document's id, which is a non-empty string
  whenever \<open>should_sync_document\<close> has returned \<open>True\<close>.
\<close>

fun sync_loop ::
  "env \<Rightarrow> doc_info list \<Rightarrow> sync_acc \<Rightarrow> world \<Rightarrow> (exn + sync_acc) \<times> world" where
  "sync_loop E [] a w = (Inr a, w)"
| "sync_loop E (d # ds) a w =
     (case should_sync_document d (acc_state a) of
        Inl e \<Rightarrow> (Inl e, w)
      | Inr eligible \<Rightarrow>
          if \<not> eligible then sync_loop E ds a w
          else
            (case sync_document E d w of
               (Inl e, w') \<Rightarrow> (Inl e, w')
             | (Inr (ok, error), w') \<Rightarrow>
                 if ok then
                   (let entry = \<lparr>entry_name = get_or_none (doc_name d),
                                 entry_modified = doc_modified d,
                                 entry_sync_date = clock E (ticks w')\<rparr>;
                        st = acc_state a;
                        st' = (case doc_id d of
                                 None \<Rightarrow> st
                               | Some k \<Rightarrow>
                                   st\<lparr>synced_documents := (synced_documents st)(k \<mapsto> entry)\<rparr>)
                    in sync_loop E ds
                         (a\<lparr>acc_state := st', acc_synced := acc_synced a + 1\<rparr>)
                         (w'\<lparr>ticks := Suc (ticks w')\<rparr>))
                 else
                   sync_loop E ds
                     (a\<lparr>acc_failed := acc_failed a + 1,
                        acc_failed_docs := acc_failed_docs a
                          @ [\<lparr>fail_id = doc_id d, fail_name = get_or_none (doc_name d),
                              fail_error = error\<rparr>]\<rparr>)
                     w'))"

text \<open>What \<open>sync_documents\<close> does before the loop: it loads the state, zeroes the
  counters and announces the batch in the log.\<close>

definition start_sync :: "env \<Rightarrow> doc_info list \<Rightarrow> world \<Rightarrow> sync_acc \<times> world" where
  "start_sync E documents w =
     (\<lparr>acc_state = get_sync_state w, acc_synced = 0, acc_failed = 0, acc_failed_docs = []\<rparr>,
      log_sync_activity E
        (''Starting sync of '' @ str_nat (length documents) @ '' documents'') ''INFO'' w)"

definition sync_documents ::
  "env \<Rightarrow> doc_info list \<Rightarrow> world \<Rightarrow> (exn + sync_report) \<times> world" where
  "sync_documents E documents w =
     (let (a0, w1) = start_sync E documents w
      in case sync_loop E documents a0 w1 of
           (Inl e, w2) \<Rightarrow> (Inl e, w2)
         | (Inr a, w2) \<Rightarrow>
             (let st = (acc_state a)\<lparr>last_sync := Some (clock E (ticks w2)),
                                     failed_documents := acc_failed_docs a\<rparr>;
                  w3 = save_sync_state st (w2\<lparr>ticks := Suc (ticks w2)\<rparr>);
                  result = \<lparr>report_success = (acc_failed a = 0),
                            synced_count = acc_synced a,
                            failed_count = acc_failed a,
                            report_failed_documents = acc_failed_docs a,
                            total_processed = length documents\<rparr>;
                  w4 = log_sync_activity E
                         (''Sync completed: '' @ str_nat (acc_synced a) @ '' synced, ''
                            @ str_nat (acc_failed a) @ '' failed'') ''INFO'' w3
              in (Inr result, w4)))"

section \<open>Observations on a run\<close>


text \<open>\<open>all_eligible\<close>: every document of the batch is eligible when the loop reaches it.\<close>

fun all_eligible :: "env \<Rightarrow> doc_info list \<Rightarrow> sync_acc \<Rightarrow> world \<Rightarrow> bool" where
  "all_eligible E [] a w = True"
| "all_eligible E (d # ds) a w =
     (should_sync_document d (acc_state a) = Inr True \<and>
      (case sync_loop E [d] a w of
         (Inl e, w') \<Rightarrow> False
       | (Inr a', w') \<Rightarrow> all_eligible E ds a' w'))"


text \<open>\<open>eligibility_raises\<close>: the records on which \<open>should_sync_document\<close> raises, those with
  a non-empty id and a \<open>null\<close> name.\<close>

definition eligibility_raises :: "doc_info \<Rightarrow> bool" where
  "eligibility_raises d = (truthy (doc_id d) \<and> doc_name d = Null)"

text \<open>A download that fails: the client raises, or returns no path.\<close>

definition download_fails :: "env \<Rightarrow> doc_info \<Rightarrow> bool" where
  "download_fails E d =
     (case download_document E (doc_id d) of
        Inl e \<Rightarrow> True
      | Inr None \<Rightarrow> True
      | Inr (Some p) \<Rightarrow> p = [])"

section \<open>The eligibility rule in the words of the specification\<close>

text \<open>
  \<open>spec_skipped\<close> is the rule as the specification words it: a document is skipped if its
  extension is not supported (the support check does not return \<open>True\<close>), or if an entry
  exists for its id and its current timestamp is not strictly greater than the stored one.
  \<open>ts_greater\<close> is the comparison of two timestamps, which holds only between two
  timestamps that are there.
\<close>

definition ts_greater :: "string option \<Rightarrow> string option \<Rightarrow> bool" where
  "ts_greater a b =
     (case a of
        None \<Rightarrow> False
      | Some x \<Rightarrow> (case b of None \<Rightarrow> False | Some y \<Rightarrow> x > y))"

definition spec_skipped :: "doc_info \<Rightarrow> sync_state \<Rightarrow> bool" where
  "spec_skipped d st =
     (is_document_supported d \<noteq> Inr True \<or>
      (case doc_id d of
         None \<Rightarrow> False
       | Some k \<Rightarrow>
           (case synced_documents st k of
              None \<Rightarrow> False
            | Some e \<Rightarrow> \<not> ts_greater (doc_modified d) (entry_modified e))))"

section \<open>The fingerprint invariant\<close>

text \<open>
  \<open>entry_matches st k c\<close>: if the state \<open>st\<close> has an entry for the id \<open>k\<close>, then \<open>c\<close> is the
  document record of the most recent successful sync of \<open>k\<close>, and the entry's fingerprint
  is that record's \<open>modified\<close> value.
\<close>

definition entry_matches :: "sync_state \<Rightarrow> string \<Rightarrow> doc_info option \<Rightarrow> bool" where
  "entry_matches st k c =
     (case synced_documents st k of
        None \<Rightarrow> True
      | Some e \<Rightarrow>
          (case c of
             None \<Rightarrow> False
           | Some d \<Rightarrow> entry_modified e = doc_modified d))"

section \<open>A concrete scenario\<close>

text \<open>
  A small remote source, used to run the engine on concrete batches. The clock returns
  \<open>t0\<close>, \<open>t1\<close>, ...; the download of document \<open>B\<close> returns no path and the download of \<open>X\<close>
  raises; every other download writes \<open>/tmp/<id>.txt\<close>; the file of document \<open>C\<close> holds
  only blanks; the splitter returns the text as one chunk; the store accepts every batch.
\<close>

definition example_env :: env where
  "example_env =
     \<lparr>clock = (\<lambda>n. ''t'' @ str_nat n),
      download_document =
        (\<lambda>k. if k = Some ''B'' then Inr None
              else if k = Some ''X'' then Inl (ValueError ''Not authenticated'')
              else Inr (Some (''/tmp/'' @ str_opt k @ ''.txt''))),
      extract_text = (\<lambda>p. if p = ''/tmp/C.txt'' then Inr ''  '' else Inr ''hello world''),
      split_text = (\<lambda>t. Inr [t]),
      rag_pipeline = Some (rag_add_documents (\<lambda>ds ids. None))\<rparr>"

definition example_world :: world where
  "example_world =
     \<lparr>ticks = 0, log_file = [], state_file = None, state_writes = 0, temp_files = {}\<rparr>"

definition example_doc :: "string \<Rightarrow> string \<Rightarrow> string option \<Rightarrow> doc_info" where
  "example_doc i n m =
     \<lparr>doc_id = Some i, doc_name = Str n, doc_modified = m,
      doc_author = None, doc_workspace = None\<rparr>"

text \<open>A record whose name is \<open>null\<close>.\<close>

definition null_name_doc :: doc_info where
  "null_name_doc =
     \<lparr>doc_id = Some ''N'', doc_name = Null, doc_modified = Some ''T1'',
      doc_author = None, doc_workspace = None\<rparr>"

text \<open>Two chunks for the knowledge store: the first chunk of \<open>a.txt\<close> and the first chunk
  of \<open>b.txt\<close>.\<close>

definition chunk_a :: document where
  "chunk_a = \<lparr>page_content = ''alpha'',
              metadata = [''source'' \<mapsto> MStr ''a.txt'', ''chunk_id'' \<mapsto> MInt 0]\<rparr>"

definition chunk_b :: document where
  "chunk_b = \<lparr>page_content = ''beta'',
              metadata = [''source'' \<mapsto> MStr ''b.txt'', ''chunk_id'' \<mapsto> MInt 0]\<rparr>"

section \<open>Eligibility: what the code decides\<close>

lemma supported_example_doc_pdf: "is_document_supported (example_doc i ''a.pdf'' m) = Inr True"
  by (simp add: is_document_supported_def example_doc_def get_or_def path_suffix_def
      path_name_def lower_def lower_char_def SUPPORTED_EXTENSIONS_def)

lemma is_document_supported_returns:
  "doc_name d \<noteq> Null \<Longrightarrow> \<exists>b. is_document_supported d = Inr b"
  by (cases "doc_name d") (simp_all add: is_document_supported_def get_or_def)

lemma is_document_supported_raises:
  "doc_name d = Null \<Longrightarrow>
     is_document_supported d
       = Inl (TypeError ''expected str, bytes or os.PathLike object, not NoneType'')"
  by (simp add: is_document_supported_def get_or_def)

lemma should_sync_document_raises_iff:
  "(\<exists>e. should_sync_document d st = Inl e) \<longleftrightarrow> eligibility_raises d"
  by (cases "doc_name d")
    (auto simp: should_sync_document_def eligibility_raises_def truthy_def
      is_document_supported_def get_or_def split: option.splits)

lemma should_sync_document_True_id:
  assumes "should_sync_document d st = Inr True"
  obtains k where "doc_id d = Some k" "k \<noteq> []"
  using assms
  by (auto simp: should_sync_document_def split: option.splits if_splits)

text \<open>
  Claim C1, as the specification states it, fails: a record without an id whose
  extension is supported, met with an empty state, is skipped by \<open>should_sync_document\<close>,
  while the stated rule makes it eligible.
\<close>

theorem should_sync_document_not_spec_rule:
  "\<not> (should_sync_document
         \<lparr>doc_id = None, doc_name = Str ''a.pdf'', doc_modified = Some ''T1'',
          doc_author = None, doc_workspace = None\<rparr>
         \<lparr>last_sync = None, synced_documents = Map.empty, failed_documents = []\<rparr> = Inr True
       \<longleftrightarrow>
       \<not> spec_skipped
         \<lparr>doc_id = None, doc_name = Str ''a.pdf'', doc_modified = Some ''T1'',
          doc_author = None, doc_workspace = None\<rparr>
         \<lparr>last_sync = None, synced_documents = Map.empty, failed_documents = []\<rparr>)"
  by (simp add: should_sync_document_def spec_skipped_def is_document_supported_def get_or_def
      path_suffix_def path_name_def lower_def lower_char_def SUPPORTED_EXTENSIONS_def)



section \<open>Chunking processor\<close>

lemma process_document_example:
  "\<exists>docs. process_document example_env ''/tmp/A.txt'' = Inr docs \<and> length docs = 1"
  by (simp add: process_document_def example_env_def strip_def is_space_def Let_def)

lemma strip_empty_iff: "strip s = [] \<longleftrightarrow> (\<forall>c \<in> set s. is_space c)"
proof -
  have "set s = set (takeWhile is_space s) \<union> set (dropWhile is_space s)"
    by (metis set_append takeWhile_dropWhile_id)
  then have "(\<forall>x \<in> set (dropWhile is_space s). is_space x) \<longleftrightarrow> (\<forall>c \<in> set s. is_space c)"
    by (auto dest: set_takeWhileD)
  then show ?thesis by (simp add: strip_def)
qed

text \<open>
  Claim C8: when the text extracted from the file is empty after stripping whitespace,
  \<open>process_document\<close> raises (it returns no chunk list at all). When it is not, whatever
  the splitter raises is raised, and when the splitter returns its chunks,
  \<open>process_document\<close> returns one document per chunk, in order, the \<open>i\<close>-th carrying
  \<open>chunk_id = i\<close> (from 0) and \<open>total_chunks\<close> equal to the number of documents returned.
\<close>

theorem process_document_chunks:
  "extract_text E p = Inr text \<longrightarrow>
     (strip text = [] \<longrightarrow>
        process_document E p = Inl (ValueError (''No text could be extracted from '' @ p)))
   \<and> (strip text \<noteq> [] \<longrightarrow>
        (\<forall>e. split_text E text = Inl e \<longrightarrow> process_document E p = Inl e)
      \<and> (\<forall>chunks. split_text E text = Inr chunks \<longrightarrow>
           (\<exists>docs. process_document E p = Inr docs \<and> length docs = length chunks \<and>
              (\<forall>i < length docs.
                 page_content (docs ! i) = chunks ! i \<and>
                 metadata (docs ! i) ''chunk_id'' = Some (MInt (int i)) \<and>
                 metadata (docs ! i) ''total_chunks'' = Some (MInt (int (length docs)))))))"
  by (auto simp: process_document_def Let_def nth_enumerate_eq split: sum.splits)

theorem process_document_chunks_witness:
  "process_document example_env ''/tmp/C.txt''
     = Inl (ValueError ''No text could be extracted from /tmp/C.txt'')
   \<and> (\<exists>docs. process_document example_env ''/tmp/A.txt'' = Inr docs \<and> length docs = 1 \<and>
        page_content (docs ! 0) = ''hello world'' \<and>
        metadata (docs ! 0) ''chunk_id'' = Some (MInt 0) \<and>
        metadata (docs ! 0) ''total_chunks'' = Some (MInt 1))"
proof -
  have 1: "process_document example_env ''/tmp/C.txt''
     = Inl (ValueError ''No text could be extracted from /tmp/C.txt'')"
    using process_document_chunks [of example_env "''/tmp/C.txt''" "''  ''"]
    by (simp add: example_env_def strip_def is_space_def)
  have 2: "\<exists>docs. process_document example_env ''/tmp/A.txt'' = Inr docs \<and> length docs = 1 \<and>
        page_content (docs ! 0) = ''hello world'' \<and>
        metadata (docs ! 0) ''chunk_id'' = Some (MInt 0) \<and>
        metadata (docs ! 0) ''total_chunks'' = Some (MInt 1)"
    using process_document_chunks [of example_env "''/tmp/A.txt''" "''hello world''"]
    by (auto simp: example_env_def strip_def is_space_def)
  from 1 2 show ?thesis by blast
qed

section \<open>Store identifiers\<close>

lemma str_nat_digit: "n < 10 \<Longrightarrow> str_nat n = [digit_char n]"
  by (simp add: str_nat.simps)

text \<open>
  Claim C6, as the specification states it, fails: the first chunk of \<open>a.txt\<close> gets the
  identifier \<open>doc_0_a.txt_0\<close> when it is submitted alone and \<open>doc_1_a.txt_0\<close> when it is
  submitted after a chunk of another file.
\<close>

theorem store_ids_depend_on_position:
  "\<not> (store_ids [chunk_a] ! 0 = store_ids [chunk_b, chunk_a] ! 1)"
  by (simp add: store_ids_def chunk_a_def chunk_b_def str_nat_digit digit_char_def str_int_def)

text \<open>
  Claim C6, amended: the identifier of a chunk is made of its position in the batch, its
  source name and its chunk index. Two chunks that agree on source name and chunk index
  and stand at the same position of their batches get the same identifier; and when the
  batch is the list of chunks that \<open>process_document\<close> returned for one file, as in
  \<open>sync_document\<close>, the position is the chunk index, so that the identifier of the \<open>i\<close>-th
  chunk is \<open>doc_i_<source>_i\<close>, a function of source name and chunk index alone.
\<close>

theorem store_ids_same_position:
  "(i < length b1 \<and> i < length b2 \<and>
      metadata (b1 ! i) ''source'' = metadata (b2 ! i) ''source'' \<and>
      metadata (b1 ! i) ''chunk_id'' = metadata (b2 ! i) ''chunk_id''
      \<longrightarrow> store_ids b1 ! i = store_ids b2 ! i)
   \<and> (process_document E p = Inr docs \<and> i < length docs
      \<longrightarrow> store_ids docs ! i = ''doc_'' @ str_nat i @ ''_'' @ basename p @ ''_'' @ str_nat i)"
  by (auto simp: store_ids_def process_document_def Let_def nth_enumerate_eq str_int_def
      split: sum.splits if_splits)

theorem store_ids_same_position_witness:
  "store_ids [chunk_a] ! 0 = store_ids [chunk_a, chunk_b] ! 0
   \<and> (\<exists>docs. process_document example_env ''/tmp/A.txt'' = Inr docs
        \<and> store_ids docs ! 0 = ''doc_0_A.txt_0'')"
proof -
  have 1: "store_ids [chunk_a] ! 0 = store_ids [chunk_a, chunk_b] ! 0"
    using store_ids_same_position [of 0 "[chunk_a]" "[chunk_a, chunk_b]"]
    by simp
  obtain docs where d: "process_document example_env ''/tmp/A.txt'' = Inr docs" "length docs = 1"
    using process_document_example by auto
  have "store_ids docs ! 0 = ''doc_0_A.txt_0''"
    using store_ids_same_position [of 0 _ _ example_env "''/tmp/A.txt''" docs] d
    by (simp add: str_nat_digit digit_char_def basename_def)
  with 1 d show ?thesis by blast
qed

section \<open>Effects of one sync attempt\<close>

lemma log_sync_activity_fields [simp]:
  "state_file (log_sync_activity E m l w) = state_file w"
  "state_writes (log_sync_activity E m l w) = state_writes w"
  "temp_files (log_sync_activity E m l w) = temp_files w"
  "ticks (log_sync_activity E m l w) = Suc (ticks w)"
  by (simp_all add: log_sync_activity_def Let_def)

lemma add_netdocuments_metadata_snd:
  "snd (add_netdocuments_metadata E d n docs w) = w\<lparr>ticks := ticks w + length docs\<rparr>"
  by (induction docs arbitrary: w) (simp_all add: Let_def case_prod_beta)

lemma add_netdocuments_metadata_length:
  "length (fst (add_netdocuments_metadata E d n docs w)) = length docs"
  by (induction docs arbitrary: w) (simp_all add: Let_def case_prod_beta)

lemma add_netdocuments_metadata_eq:
  assumes "add_netdocuments_metadata E d n docs w = (docs', w')"
  shows "w' = w\<lparr>ticks := ticks w + length docs\<rparr>" "length docs' = length docs"
  using assms add_netdocuments_metadata_snd [of E d n docs w]
    add_netdocuments_metadata_length [of E d n docs w]
  by simp_all

lemma process_and_index_world:
  assumes "process_and_index E d n p w = (r, w')"
  shows "state_file w' = state_file w" "state_writes w' = state_writes w"
    "temp_files w' = temp_files w" "ticks w \<le> ticks w'"
  using assms
  by (auto simp: process_and_index_def Let_def
      split: sum.splits prod.splits option.splits if_splits
      dest!: add_netdocuments_metadata_eq(1))

lemma process_and_index_result:
  assumes "process_and_index E d n p w = (Inr (ok, err), w')"
  shows "ok \<longleftrightarrow> err = None"
  using assms
  by (auto simp: process_and_index_def Let_def
      split: sum.splits prod.splits option.splits if_splits)

lemma download_and_process_world:
  assumes "download_and_process E d n w = (r, w')"
  shows "state_file w' = state_file w" "state_writes w' = state_writes w" "ticks w \<le> ticks w'"
  using assms
  by (auto simp: download_and_process_def Let_def
      split: sum.splits prod.splits option.splits if_splits dest: process_and_index_world)

lemma download_and_process_result:
  assumes "download_and_process E d n w = (Inr (ok, err), w')"
  shows "ok \<longleftrightarrow> err = None"
  using assms
  by (auto simp: download_and_process_def Let_def
      split: sum.splits prod.splits option.splits if_splits dest: process_and_index_result)

lemma download_and_process_temp_file:
  assumes "download_and_process E d n w = (r, w')"
    and "download_document E (doc_id d) = Inr (Some p)" and "p \<noteq> []"
  shows "temp_files w' = temp_files w - {p}"
  using assms
  by (auto simp: download_and_process_def Let_def
      split: prod.splits dest: process_and_index_world(3))

lemma sync_document_returns:
  "\<exists>ok err w'. sync_document E d w = (Inr (ok, err), w')"
  by (auto simp: sync_document_def Let_def split: sum.splits prod.splits)

lemma sync_document_world:
  assumes "sync_document E d w = (r, w')"
  shows "state_file w' = state_file w" "state_writes w' = state_writes w" "ticks w \<le> ticks w'"
  using assms
  by (auto simp: sync_document_def Let_def
      split: sum.splits prod.splits dest: download_and_process_world)

lemma sync_document_result:
  assumes "sync_document E d w = (Inr (ok, err), w')"
  shows "ok \<longleftrightarrow> err = None"
  using assms
  by (auto simp: sync_document_def Let_def
      split: sum.splits prod.splits dest: download_and_process_result)

lemma sync_document_temp_file:
  assumes "sync_document E d w = (r, w')"
    and "download_document E (doc_id d) = Inr (Some p)" and "p \<noteq> []"
  shows "temp_files w' = temp_files w - {p}"
  using assms
  by (auto simp: sync_document_def Let_def
      split: sum.splits prod.splits dest: download_and_process_temp_file)

text \<open>What \<open>sync_document\<close> returns on each failing path.\<close>

lemma sync_document_download_raises:
  assumes "download_document E (doc_id d) = Inl e"
  shows "fst (sync_document E d w)
           = Inr (False, Some (''Error syncing document '' @ str_opt (document_name d) @ '': '' @ str_exn e))"
  using assms by (simp add: sync_document_def download_and_process_def Let_def)

lemma sync_document_no_path:
  assumes "download_document E (doc_id d) = Inr None
           \<or> download_document E (doc_id d) = Inr (Some [])"
  shows "fst (sync_document E d w)
           = Inr (False, Some (''Failed to download document '' @ str_opt (document_name d)))"
  using assms by (auto simp: sync_document_def download_and_process_def Let_def)

lemma sync_document_processing_raises:
  assumes "download_document E (doc_id d) = Inr (Some p)" and "p \<noteq> []"
    and "process_document E p = Inl e"
  shows "fst (sync_document E d w)
           = Inr (False, Some (''Error syncing document '' @ str_opt (document_name d) @ '': '' @ str_exn e))"
  using assms
  by (simp add: sync_document_def download_and_process_def process_and_index_def Let_def)

lemma sync_document_store_raises:
  assumes "download_document E (doc_id d) = Inr (Some p)" and "p \<noteq> []"
    and "process_document E p = Inr docs"
    and "rag_pipeline E = Some add" and "\<And>ds. add ds = Inl e"
  shows "fst (sync_document E d w)
           = Inr (False, Some (''Error syncing document '' @ str_opt (document_name d) @ '': '' @ str_exn e))"
  using assms
  by (simp add: sync_document_def download_and_process_def process_and_index_def Let_def
      case_prod_beta)

lemma sync_document_store_rejects:
  assumes "download_document E (doc_id d) = Inr (Some p)" and "p \<noteq> []"
    and "process_document E p = Inr docs"
    and "rag_pipeline E = Some add" and "\<And>ds. add ds = Inr r" and "\<not> success r"
  shows "fst (sync_document E d w)
           = Inr (False, Some (''Failed to add '' @ str_opt (document_name d) @ '' to knowledge base: ''
                                @ message r))"
  using assms
  by (simp add: sync_document_def download_and_process_def process_and_index_def Let_def
      case_prod_beta)

section \<open>The loop, one document at a time\<close>

declare sync_loop.simps(2) [simp del]

lemma sync_loop_raise:
  assumes "should_sync_document d (acc_state a) = Inl e"
  shows "sync_loop E (d # ds) a w = (Inl e, w)"
  using assms by (simp add: sync_loop.simps(2))

lemma sync_loop_skip:
  assumes "should_sync_document d (acc_state a) = Inr False"
  shows "sync_loop E (d # ds) a w = sync_loop E ds a w"
  using assms by (simp add: sync_loop.simps(2))

lemma sync_loop_synced:
  assumes "should_sync_document d (acc_state a) = Inr True"
    and "sync_document E d w = (Inr (True, err), w')"
  shows "sync_loop E (d # ds) a w =
         sync_loop E ds
           (a\<lparr>acc_state :=
                 (case doc_id d of
                    None \<Rightarrow> acc_state a
                  | Some k \<Rightarrow> (acc_state a)\<lparr>synced_documents := (synced_documents (acc_state a))
                      (k \<mapsto> \<lparr>entry_name = get_or_none (doc_name d),
                              entry_modified = doc_modified d,
                              entry_sync_date = clock E (ticks w')\<rparr>)\<rparr>),
               acc_synced := acc_synced a + 1\<rparr>)
           (w'\<lparr>ticks := Suc (ticks w')\<rparr>)"
  using assms by (simp add: sync_loop.simps(2) Let_def)

lemma sync_loop_failed:
  assumes "should_sync_document d (acc_state a) = Inr True"
    and "sync_document E d w = (Inr (False, err), w')"
  shows "sync_loop E (d # ds) a w =
         sync_loop E ds
           (a\<lparr>acc_failed := acc_failed a + 1,
              acc_failed_docs := acc_failed_docs a
                @ [\<lparr>fail_id = doc_id d, fail_name = get_or_none (doc_name d),
                    fail_error = err\<rparr>]\<rparr>)
           w'"
  using assms by (simp add: sync_loop.simps(2))

text \<open>The four ways in which the loop can leave one document.\<close>

lemma sync_loop_single_cases:
  obtains
    (raised) e where "should_sync_document d (acc_state a) = Inl e" "eligibility_raises d"
      "sync_loop E [d] a w = (Inl e, w)"
  | (skipped) "should_sync_document d (acc_state a) = Inr False"
      "sync_loop E [d] a w = (Inr a, w)"
  | (synced) k err w' where "should_sync_document d (acc_state a) = Inr True"
      "doc_id d = Some k" "k \<noteq> []"
      "sync_document E d w = (Inr (True, err), w')"
      "sync_loop E [d] a w =
         (Inr (a\<lparr>acc_state := (acc_state a)\<lparr>synced_documents := (synced_documents (acc_state a))
                      (k \<mapsto> \<lparr>entry_name = get_or_none (doc_name d),
                              entry_modified = doc_modified d,
                              entry_sync_date = clock E (ticks w')\<rparr>)\<rparr>,
                  acc_synced := acc_synced a + 1\<rparr>),
          w'\<lparr>ticks := Suc (ticks w')\<rparr>)"
  | (failed) err w' where "should_sync_document d (acc_state a) = Inr True"
      "sync_document E d w = (Inr (False, err), w')"
      "sync_loop E [d] a w =
         (Inr (a\<lparr>acc_failed := acc_failed a + 1,
                  acc_failed_docs := acc_failed_docs a
                    @ [\<lparr>fail_id = doc_id d, fail_name = get_or_none (doc_name d),
                        fail_error = err\<rparr>]\<rparr>),
          w')"
proof (cases "should_sync_document d (acc_state a)")
  case (Inl e)
  moreover from Inl have "eligibility_raises d"
    using should_sync_document_raises_iff [of d "acc_state a"] by blast
  ultimately show ?thesis using raised [of e] by (simp add: sync_loop_raise)
next
  case (Inr b)
  show ?thesis
  proof (cases b)
    case False
    with Inr show ?thesis using skipped by (simp add: sync_loop_skip)
  next
    case True
    with Inr have el: "should_sync_document d (acc_state a) = Inr True" by simp
    then obtain k where k: "doc_id d = Some k" "k \<noteq> []"
      by (rule should_sync_document_True_id)
    obtain ok err w' where r: "sync_document E d w = (Inr (ok, err), w')"
      using sync_document_returns by blast
    show ?thesis
    proof (cases ok)
      case True
      with r el k show ?thesis
        using synced [of k err w'] by (simp add: sync_loop_synced)
    next
      case False
      with r el show ?thesis
        using failed [of err w'] by (simp add: sync_loop_failed)
    qed
  qed
qed

lemma sync_loop_Cons_step:
  "sync_loop E (d # ds) a w =
     (case sync_loop E [d] a w of
        (Inl e, w') \<Rightarrow> (Inl e, w')
      | (Inr a', w') \<Rightarrow> sync_loop E ds a' w')"
proof (cases rule: sync_loop_single_cases [of d a E w])
  case (raised e)
  then show ?thesis by (simp add: sync_loop_raise)
next
  case skipped
  then show ?thesis by (simp add: sync_loop_skip)
next
  case (synced k err w')
  then show ?thesis by (simp add: sync_loop_synced)
next
  case (failed err w')
  then show ?thesis by (simp add: sync_loop_failed)
qed

lemma sync_loop_single_world:
  assumes "sync_loop E [d] a w = (r, w')"
  shows "state_file w' = state_file w" "state_writes w' = state_writes w" "ticks w \<le> ticks w'"
  using assms
  by (cases rule: sync_loop_single_cases [of d a E w]; auto dest: sync_document_world)+

lemma sync_loop_single_returns:
  "\<not> eligibility_raises d \<Longrightarrow> \<exists>a' w'. sync_loop E [d] a w = (Inr a', w')"
  by (cases rule: sync_loop_single_cases [of d a E w]) auto

lemma sync_loop_world:
  assumes "sync_loop E ds a w = (r, w')"
  shows "state_file w' = state_file w \<and> state_writes w' = state_writes w \<and> ticks w \<le> ticks w'"
  using assms
proof (induction ds arbitrary: a w)
  case Nil
  then show ?case by simp
next
  case (Cons d ds)
  obtain r1 w1 where s: "sync_loop E [d] a w = (r1, w1)"
    by (cases "sync_loop E [d] a w") blast
  note sw = sync_loop_single_world [OF s]
  show ?case
  proof (cases r1)
    case (Inl e)
    with s Cons.prems sw show ?thesis
      by (simp add: sync_loop_Cons_step [of E d ds])
  next
    case (Inr a1)
    with s Cons.prems have "sync_loop E ds a1 w1 = (r, w')"
      by (simp add: sync_loop_Cons_step [of E d ds])
    from Cons.IH [OF this] sw show ?thesis by simp
  qed
qed

lemma sync_loop_returns:
  assumes "\<forall>d \<in> set ds. \<not> eligibility_raises d"
  shows "\<exists>a' w'. sync_loop E ds a w = (Inr a', w')"
  using assms
proof (induction ds arbitrary: a w)
  case Nil
  show ?case by simp
next
  case (Cons d ds)
  then obtain a1 w1 where s: "sync_loop E [d] a w = (Inr a1, w1)"
    using sync_loop_single_returns [of d E a w] by auto
  from Cons.IH [of a1 w1] Cons.prems s show ?case
    by (simp add: sync_loop_Cons_step [of E d ds])
qed

lemma sync_loop_Inr_no_raise:
  assumes "sync_loop E ds a w = (Inr a', w')"
  shows "\<forall>d \<in> set ds. \<not> eligibility_raises d"
  using assms
proof (induction ds arbitrary: a w)
  case Nil
  show ?case by simp
next
  case (Cons d ds)
  show ?case
  proof (cases rule: sync_loop_single_cases [of d a E w])
    case (raised e)
    with Cons.prems show ?thesis by (simp add: sync_loop_Cons_step [of E d ds])
  next
    case skipped
    then have "\<not> eligibility_raises d"
      using should_sync_document_raises_iff [of d "acc_state a"] by auto
    with skipped Cons show ?thesis by (simp add: sync_loop_Cons_step [of E d ds])
  next
    case (synced k err v)
    then have "\<not> eligibility_raises d"
      using should_sync_document_raises_iff [of d "acc_state a"] by auto
    with synced Cons.prems Cons.IH [of _ "v\<lparr>ticks := Suc (ticks v)\<rparr>"] show ?thesis
      by (simp add: sync_loop_Cons_step [of E d ds])
  next
    case (failed err v)
    then have "\<not> eligibility_raises d"
      using should_sync_document_raises_iff [of d "acc_state a"] by auto
    with failed Cons.prems Cons.IH [of _ v] show ?thesis
      by (simp add: sync_loop_Cons_step [of E d ds])
  qed
qed

lemma sync_loop_append:
  "sync_loop E (xs @ ys) a w =
     (case sync_loop E xs a w of
        (Inl e, w') \<Rightarrow> (Inl e, w')
      | (Inr a', w') \<Rightarrow> sync_loop E ys a' w')"
proof (induction xs arbitrary: a w)
  case Nil
  show ?case by simp
next
  case (Cons d xs)
  obtain r1 w1 where s: "sync_loop E [d] a w = (r1, w1)"
    by (cases "sync_loop E [d] a w") blast
  show ?case
    using Cons.IH [of _ w1] s
    by (cases r1)
      (simp_all add: sync_loop_Cons_step [of E d "xs @ ys"] sync_loop_Cons_step [of E d xs])
qed

lemma start_sync_fields [simp]:
  "acc_state (fst (start_sync E docs w)) = get_sync_state w"
  "acc_synced (fst (start_sync E docs w)) = 0"
  "acc_failed (fst (start_sync E docs w)) = 0"
  "acc_failed_docs (fst (start_sync E docs w)) = []"
  "state_file (snd (start_sync E docs w)) = state_file w"
  "state_writes (snd (start_sync E docs w)) = state_writes w"
  "temp_files (snd (start_sync E docs w)) = temp_files w"
  by (simp_all add: start_sync_def)

text \<open>\<open>sync_documents\<close>, once the loop has returned, and when the loop has raised.\<close>

lemma sync_documents_eq:
  assumes "sync_loop E docs (fst (start_sync E docs w)) (snd (start_sync E docs w)) = (Inr a, w2)"
  shows "sync_documents E docs w =
     (Inr \<lparr>report_success = (acc_failed a = 0), synced_count = acc_synced a,
           failed_count = acc_failed a, report_failed_documents = acc_failed_docs a,
           total_processed = length docs\<rparr>,
      log_sync_activity E
        (''Sync completed: '' @ str_nat (acc_synced a) @ '' synced, ''
           @ str_nat (acc_failed a) @ '' failed'') ''INFO''
        (save_sync_state
           ((acc_state a)\<lparr>last_sync := Some (clock E (ticks w2)),
                          failed_documents := acc_failed_docs a\<rparr>)
           (w2\<lparr>ticks := Suc (ticks w2)\<rparr>)))"
  using assms by (simp add: sync_documents_def Let_def case_prod_beta)

lemma sync_documents_raise:
  assumes "sync_loop E docs (fst (start_sync E docs w)) (snd (start_sync E docs w)) = (Inl e, w2)"
  shows "sync_documents E docs w = (Inl e, w2)"
  using assms by (simp add: sync_documents_def Let_def case_prod_beta)

section \<open>The concrete scenario, run\<close>

lemma should_sync_example_doc_fresh:
  assumes "i \<noteq> []" and "synced_documents st i = None"
  shows "should_sync_document (example_doc i ''a.pdf'' m) st = Inr True"
  using assms supported_example_doc_pdf [of i m]
  by (simp add: should_sync_document_def example_doc_def)

lemma sync_document_example_ok:
  assumes "i \<notin> {''B'', ''X'', ''C''}"
  shows "\<exists>w'. sync_document example_env (example_doc i n m) w = (Inr (True, None), w')
           \<and> ticks w' = ticks w + 3 \<and> temp_files w' = temp_files w - {''/tmp/'' @ i @ ''.txt''}"
  using assms
  by (simp add: sync_document_def download_and_process_def process_and_index_def
      process_document_def example_env_def example_doc_def rag_add_documents_def
      vector_store_add_documents_def strip_def is_space_def str_opt_def Let_def)

lemma sync_document_example_ok_fst:
  assumes "i \<notin> {''B'', ''X'', ''C''}"
  shows "fst (sync_document example_env (example_doc i n m) w) = Inr (True, None)"
proof -
  obtain w' where "sync_document example_env (example_doc i n m) w = (Inr (True, None), w')"
    using sync_document_example_ok [OF assms, of n m w] by blast
  then show ?thesis by simp
qed


lemma process_document_example_C:
  "process_document example_env ''/tmp/C.txt''
     = Inl (ValueError ''No text could be extracted from /tmp/C.txt'')"
  by (simp add: process_document_def example_env_def strip_def is_space_def)

lemma example_download_A:
  "download_document example_env (doc_id (example_doc ''A'' n m)) = Inr (Some ''/tmp/A.txt'')"
  by (simp add: example_env_def example_doc_def str_opt_def)

lemma example_download_C:
  "download_document example_env (doc_id (example_doc ''C'' n m)) = Inr (Some ''/tmp/C.txt'')"
  by (simp add: example_env_def example_doc_def str_opt_def)

lemma sync_document_example_C:
  "fst (sync_document example_env (example_doc ''C'' ''a.pdf'' m) w)
     = Inr (False, Some ''Error syncing document a.pdf: No text could be extracted from /tmp/C.txt'')"
  using sync_document_processing_raises
    [OF example_download_C _ process_document_example_C, of "''a.pdf''" m w]
  by (simp add: document_name_def get_or_def str_opt_def example_doc_def)

section \<open>Temporary files\<close>

text \<open>
  Claim C9: when the download has returned the path of a temporary file, that file is
  gone when \<open>sync_document\<close> returns, whatever happened in between: processing and
  indexing succeeded, the store rejected the batch, or extraction, chunking or the store
  raised.
\<close>

theorem sync_document_removes_temp_file:
  "download_document E (doc_id d) = Inr (Some p) \<and> p \<noteq> [] \<longrightarrow>
     (\<exists>ok err w'. sync_document E d w = (Inr (ok, err), w')
        \<and> p \<notin> temp_files w' \<and> temp_files w' = temp_files w - {p})"
proof
  assume a: "download_document E (doc_id d) = Inr (Some p) \<and> p \<noteq> []"
  obtain ok err w' where r: "sync_document E d w = (Inr (ok, err), w')"
    using sync_document_returns by blast
  from sync_document_temp_file [OF r] a have "temp_files w' = temp_files w - {p}"
    by simp
  with r show "\<exists>ok err w'. sync_document E d w = (Inr (ok, err), w')
        \<and> p \<notin> temp_files w' \<and> temp_files w' = temp_files w - {p}"
    by auto
qed

theorem sync_document_removes_temp_file_witness:
  "(\<exists>err w'. sync_document example_env (example_doc ''A'' ''a.pdf'' None) example_world
        = (Inr (True, err), w') \<and> ''/tmp/A.txt'' \<notin> temp_files w')
   \<and> (\<exists>err w'. sync_document example_env (example_doc ''C'' ''a.pdf'' None) example_world
        = (Inr (False, err), w') \<and> ''/tmp/C.txt'' \<notin> temp_files w')"
proof -
  have okA: "fst (sync_document example_env (example_doc ''A'' ''a.pdf'' None) example_world)
               = Inr (True, None)"
    by (rule sync_document_example_ok_fst) simp
  have failC: "fst (sync_document example_env (example_doc ''C'' ''a.pdf'' None) example_world)
     = Inr (False, Some ''Error syncing document a.pdf: No text could be extracted from /tmp/C.txt'')"
    by (rule sync_document_example_C)
  from sync_document_removes_temp_file
    [of example_env "example_doc ''A'' ''a.pdf'' None" "''/tmp/A.txt''" example_world]
    example_download_A [of "''a.pdf''" None] okA
  have 1: "\<exists>err w'. sync_document example_env (example_doc ''A'' ''a.pdf'' None) example_world
        = (Inr (True, err), w') \<and> ''/tmp/A.txt'' \<notin> temp_files w'"
    by auto
  from sync_document_removes_temp_file
    [of example_env "example_doc ''C'' ''a.pdf'' None" "''/tmp/C.txt''" example_world]
    example_download_C [of "''a.pdf''" None] failC
  have 2: "\<exists>err w'. sync_document example_env (example_doc ''C'' ''a.pdf'' None) example_world
        = (Inr (False, err), w') \<and> ''/tmp/C.txt'' \<notin> temp_files w'"
    by auto
  from 1 2 show ?thesis by blast
qed

section \<open>The eligibility decision\<close>

text \<open>
  Claim C1, amended: for a document whose name is not \<open>null\<close>, the check returns, and the
  document is skipped exactly when its id is missing or empty, or its extension is not
  supported, or an entry exists for its id, both the document's timestamp and the stored
  fingerprint are there and non-empty, and the document's timestamp is not strictly
  greater than the fingerprint. In every other case it is eligible; in particular a
  document whose timestamp is strictly greater than the fingerprint of its entry is
  eligible again. A skipped document leaves the loop as it found it; an eligible one is
  attempted: the loop calls \<open>sync_document\<close> on it and goes on from the world that call
  left, with the entry stored and the success counted, or with the failure recorded.
\<close>

theorem should_sync_document_skipped_iff:
  "doc_name d \<noteq> Null \<longrightarrow>
     (should_sync_document d st = Inr False \<longleftrightarrow>
        (\<not> truthy (doc_id d) \<or> is_document_supported d = Inr False \<or>
         (\<exists>k e m f. doc_id d = Some k \<and> synced_documents st k = Some e \<and>
            doc_modified d = Some m \<and> entry_modified e = Some f \<and>
            m \<noteq> [] \<and> f \<noteq> [] \<and> \<not> m > f)))
   \<and> (should_sync_document d st = Inr True \<longleftrightarrow>
        \<not> (\<not> truthy (doc_id d) \<or> is_document_supported d = Inr False \<or>
           (\<exists>k e m f. doc_id d = Some k \<and> synced_documents st k = Some e \<and>
              doc_modified d = Some m \<and> entry_modified e = Some f \<and>
              m \<noteq> [] \<and> f \<noteq> [] \<and> \<not> m > f)))
   \<and> (truthy (doc_id d) \<and> is_document_supported d = Inr True \<and>
        (\<exists>k e m f. doc_id d = Some k \<and> synced_documents st k = Some e \<and>
           doc_modified d = Some m \<and> entry_modified e = Some f \<and> f \<noteq> [] \<and> m > f)
       \<longrightarrow> should_sync_document d st = Inr True)
   \<and> (should_sync_document d (acc_state a) = Inr False \<longrightarrow>
        sync_loop E (d # ds) a w = sync_loop E ds a w)
   \<and> (should_sync_document d (acc_state a) = Inr True \<longrightarrow>
        (\<exists>ok err w'. sync_document E d w = (Inr (ok, err), w') \<and>
           sync_loop E (d # ds) a w =
             (if ok then
                sync_loop E ds
                  (a\<lparr>acc_state :=
                        (case doc_id d of
                           None \<Rightarrow> acc_state a
                         | Some k \<Rightarrow> (acc_state a)\<lparr>synced_documents :=
                             (synced_documents (acc_state a))
                             (k \<mapsto> \<lparr>entry_name = get_or_none (doc_name d),
                                     entry_modified = doc_modified d,
                                     entry_sync_date = clock E (ticks w')\<rparr>)\<rparr>),
                      acc_synced := acc_synced a + 1\<rparr>)
                  (w'\<lparr>ticks := Suc (ticks w')\<rparr>)
              else
                sync_loop E ds
                  (a\<lparr>acc_failed := acc_failed a + 1,
                     acc_failed_docs := acc_failed_docs a
                       @ [\<lparr>fail_id = doc_id d, fail_name = get_or_none (doc_name d),
                           fail_error = err\<rparr>]\<rparr>)
                  w')))"
proof
  assume n: "doc_name d \<noteq> Null"
  then obtain b where b: "is_document_supported d = Inr b"
    using is_document_supported_returns by blast
  have 1: "should_sync_document d st = Inr False \<longleftrightarrow>
        (\<not> truthy (doc_id d) \<or> is_document_supported d = Inr False \<or>
         (\<exists>k e m f. doc_id d = Some k \<and> synced_documents st k = Some e \<and>
            doc_modified d = Some m \<and> entry_modified e = Some f \<and>
            m \<noteq> [] \<and> f \<noteq> [] \<and> \<not> m > f))"
    using b by (auto simp: should_sync_document_def truthy_def split: option.splits)
  have 2: "should_sync_document d st = Inr True \<longleftrightarrow>
        \<not> (\<not> truthy (doc_id d) \<or> is_document_supported d = Inr False \<or>
           (\<exists>k e m f. doc_id d = Some k \<and> synced_documents st k = Some e \<and>
              doc_modified d = Some m \<and> entry_modified e = Some f \<and>
              m \<noteq> [] \<and> f \<noteq> [] \<and> \<not> m > f))"
    using b by (auto simp: should_sync_document_def truthy_def split: option.splits)
  have 3: "truthy (doc_id d) \<and> is_document_supported d = Inr True \<and>
        (\<exists>k e m f. doc_id d = Some k \<and> synced_documents st k = Some e \<and>
           doc_modified d = Some m \<and> entry_modified e = Some f \<and> f \<noteq> [] \<and> m > f)
       \<longrightarrow> should_sync_document d st = Inr True"
    by (auto simp: should_sync_document_def truthy_def split: option.splits)
  have 4: "should_sync_document d (acc_state a) = Inr False \<longrightarrow>
        sync_loop E (d # ds) a w = sync_loop E ds a w"
    by (simp add: sync_loop_skip)
  have 5: "should_sync_document d (acc_state a) = Inr True \<longrightarrow>
        (\<exists>ok err w'. sync_document E d w = (Inr (ok, err), w') \<and>
           sync_loop E (d # ds) a w =
             (if ok then
                sync_loop E ds
                  (a\<lparr>acc_state :=
                        (case doc_id d of
                           None \<Rightarrow> acc_state a
                         | Some k \<Rightarrow> (acc_state a)\<lparr>synced_documents :=
                             (synced_documents (acc_state a))
                             (k \<mapsto> \<lparr>entry_name = get_or_none (doc_name d),
                                     entry_modified = doc_modified d,
                                     entry_sync_date = clock E (ticks w')\<rparr>)\<rparr>),
                      acc_synced := acc_synced a + 1\<rparr>)
                  (w'\<lparr>ticks := Suc (ticks w')\<rparr>)
              else
                sync_loop E ds
                  (a\<lparr>acc_failed := acc_failed a + 1,
                     acc_failed_docs := acc_failed_docs a
                       @ [\<lparr>fail_id = doc_id d, fail_name = get_or_none (doc_name d),
                           fail_error = err\<rparr>]\<rparr>)
                  w'))"
  proof
    assume el: "should_sync_document d (acc_state a) = Inr True"
    obtain ok err w' where r: "sync_document E d w = (Inr (ok, err), w')"
      using sync_document_returns by blast
    show "\<exists>ok err w'. sync_document E d w = (Inr (ok, err), w') \<and>
           sync_loop E (d # ds) a w =
             (if ok then
                sync_loop E ds
                  (a\<lparr>acc_state :=
                        (case doc_id d of
                           None \<Rightarrow> acc_state a
                         | Some k \<Rightarrow> (acc_state a)\<lparr>synced_documents :=
                             (synced_documents (acc_state a))
                             (k \<mapsto> \<lparr>entry_name = get_or_none (doc_name d),
                                     entry_modified = doc_modified d,
                                     entry_sync_date = clock E (ticks w')\<rparr>)\<rparr>),
                      acc_synced := acc_synced a + 1\<rparr>)
                  (w'\<lparr>ticks := Suc (ticks w')\<rparr>)
              else
                sync_loop E ds
                  (a\<lparr>acc_failed := acc_failed a + 1,
                     acc_failed_docs := acc_failed_docs a
                       @ [\<lparr>fail_id = doc_id d, fail_name = get_or_none (doc_name d),
                           fail_error = err\<rparr>]\<rparr>)
                  w')"
    proof (cases ok)
      case True
      with r sync_loop_synced [OF el, of E w err w' ds] show ?thesis by auto
    next
      case False
      with r sync_loop_failed [OF el, of E w err w' ds] show ?thesis by auto
    qed
  qed
  from 1 2 3 4 5 show "(should_sync_document d st = Inr False \<longleftrightarrow>
        (\<not> truthy (doc_id d) \<or> is_document_supported d = Inr False \<or>
         (\<exists>k e m f. doc_id d = Some k \<and> synced_documents st k = Some e \<and>
            doc_modified d = Some m \<and> entry_modified e = Some f \<and>
            m \<noteq> [] \<and> f \<noteq> [] \<and> \<not> m > f)))
   \<and> (should_sync_document d st = Inr True \<longleftrightarrow>
        \<not> (\<not> truthy (doc_id d) \<or> is_document_supported d = Inr False \<or>
           (\<exists>k e m f. doc_id d = Some k \<and> synced_documents st k = Some e \<and>
              doc_modified d = Some m \<and> entry_modified e = Some f \<and>
              m \<noteq> [] \<and> f \<noteq> [] \<and> \<not> m > f)))
   \<and> (truthy (doc_id d) \<and> is_document_supported d = Inr True \<and>
        (\<exists>k e m f. doc_id d = Some k \<and> synced_documents st k = Some e \<and>
           doc_modified d = Some m \<and> entry_modified e = Some f \<and> f \<noteq> [] \<and> m > f)
       \<longrightarrow> should_sync_document d st = Inr True)
   \<and> (should_sync_document d (acc_state a) = Inr False \<longrightarrow>
        sync_loop E (d # ds) a w = sync_loop E ds a w)
   \<and> (should_sync_document d (acc_state a) = Inr True \<longrightarrow>
        (\<exists>ok err w'. sync_document E d w = (Inr (ok, err), w') \<and>
           sync_loop E (d # ds) a w =
             (if ok then
                sync_loop E ds
                  (a\<lparr>acc_state :=
                        (case doc_id d of
                           None \<Rightarrow> acc_state a
                         | Some k \<Rightarrow> (acc_state a)\<lparr>synced_documents :=
                             (synced_documents (acc_state a))
                             (k \<mapsto> \<lparr>entry_name = get_or_none (doc_name d),
                                     entry_modified = doc_modified d,
                                     entry_sync_date = clock E (ticks w')\<rparr>)\<rparr>),
                      acc_synced := acc_synced a + 1\<rparr>)
                  (w'\<lparr>ticks := Suc (ticks w')\<rparr>)
              else
                sync_loop E ds
                  (a\<lparr>acc_failed := acc_failed a + 1,
                     acc_failed_docs := acc_failed_docs a
                       @ [\<lparr>fail_id = doc_id d, fail_name = get_or_none (doc_name d),
                           fail_error = err\<rparr>]\<rparr>)
                  w')))"
    by (intro conjI)
qed

theorem should_sync_document_skipped_iff_witness:
  "should_sync_document (example_doc ''B'' ''a.pdf'' (Some ''T2''))
     \<lparr>last_sync = None,
      synced_documents = [''B'' \<mapsto> \<lparr>entry_name = Some ''a.pdf'', entry_modified = Some ''T1'',
                                   entry_sync_date = ''t4''\<rparr>],
      failed_documents = []\<rparr> = Inr True
   \<and> should_sync_document (example_doc ''B'' ''a.pdf'' (Some ''T1''))
     \<lparr>last_sync = None,
      synced_documents = [''B'' \<mapsto> \<lparr>entry_name = Some ''a.pdf'', entry_modified = Some ''T1'',
                                   entry_sync_date = ''t4''\<rparr>],
      failed_documents = []\<rparr> = Inr False"
proof -
  let ?st = "\<lparr>last_sync = None,
      synced_documents = [''B'' \<mapsto> \<lparr>entry_name = Some ''a.pdf'', entry_modified = Some ''T1'',
                                   entry_sync_date = ''t4''\<rparr>],
      failed_documents = []\<rparr>"
  have sup: "is_document_supported (example_doc ''B'' ''a.pdf'' m) = Inr True" for m
    by (rule supported_example_doc_pdf)
  have 1: "should_sync_document (example_doc ''B'' ''a.pdf'' (Some ''T2'')) ?st = Inr True"
    using should_sync_document_skipped_iff
      [of "example_doc ''B'' ''a.pdf'' (Some ''T2'')" ?st, THEN mp,
        THEN conjunct2, THEN conjunct1]
      sup [of "Some ''T2''"]
    by (simp add: truthy_def example_doc_def)
  have 2: "should_sync_document (example_doc ''B'' ''a.pdf'' (Some ''T1'')) ?st = Inr False"
    using should_sync_document_skipped_iff
      [of "example_doc ''B'' ''a.pdf'' (Some ''T1'')" ?st, THEN mp, THEN conjunct1]
      sup [of "Some ''T1''"]
    by (simp add: truthy_def example_doc_def)
  from 1 2 show ?thesis by (rule conjI)
qed

section \<open>A record whose name is null\<close>

lemma should_sync_document_raises:
  assumes "eligibility_raises d"
  shows "should_sync_document d st
           = Inl (TypeError ''expected str, bytes or os.PathLike object, not NoneType'')"
  using assms
  by (auto simp: eligibility_raises_def truthy_def should_sync_document_def
      is_document_supported_raises split: option.splits)

lemma eligibility_raises_null_name_doc: "eligibility_raises null_name_doc"
  by (simp add: eligibility_raises_def null_name_doc_def truthy_def)

lemma not_eligibility_raises_example_doc: "\<not> eligibility_raises (example_doc i n m)"
  by (simp add: eligibility_raises_def example_doc_def)

text \<open>
  The exception leaves the loop at the first such record, whatever the records before it
  did, and \<open>sync_documents\<close> passes it on without having written the state file.
\<close>

lemma sync_loop_raises:
  assumes "\<forall>d \<in> set pre. \<not> eligibility_raises d" and "eligibility_raises x"
  shows "\<exists>w'. sync_loop E (pre @ x # post) a w
           = (Inl (TypeError ''expected str, bytes or os.PathLike object, not NoneType''), w')"
proof -
  obtain a1 w1 where p: "sync_loop E pre a w = (Inr a1, w1)"
    using sync_loop_returns [OF assms(1)] by blast
  have "sync_loop E (x # post) a1 w1
          = (Inl (TypeError ''expected str, bytes or os.PathLike object, not NoneType''), w1)"
    by (rule sync_loop_raise) (rule should_sync_document_raises [OF assms(2)])
  with p show ?thesis by (simp add: sync_loop_append)
qed

lemma sync_documents_raises:
  assumes "\<forall>d \<in> set pre. \<not> eligibility_raises d" and "eligibility_raises x"
  shows "\<exists>w'. sync_documents E (pre @ x # post) w
           = (Inl (TypeError ''expected str, bytes or os.PathLike object, not NoneType''), w')
         \<and> state_file w' = state_file w \<and> state_writes w' = state_writes w"
proof -
  let ?docs = "pre @ x # post"
  obtain w2 where l: "sync_loop E ?docs (fst (start_sync E ?docs w)) (snd (start_sync E ?docs w))
      = (Inl (TypeError ''expected str, bytes or os.PathLike object, not NoneType''), w2)"
    using sync_loop_raises [OF assms] by blast
  from sync_loop_world [OF l] have "state_file w2 = state_file w \<and> state_writes w2 = state_writes w"
    by simp
  with sync_documents_raise [OF l] show ?thesis by simp
qed

text \<open>
  Claim C2 fails on the code for a batch that holds a record with a non-empty id and a
  \<open>null\<close> name: here document \<open>A\<close> is synced, then the eligibility check of the second
  record raises \<open>TypeError\<close>, and \<open>sync_documents\<close> ends without any write of the state
  file, which still does not exist.
\<close>

theorem sync_documents_null_name_no_commit:
  "state_writes (snd (sync_documents example_env
       [example_doc ''A'' ''a.pdf'' (Some ''T1''), null_name_doc] example_world)) = 0
   \<and> state_file (snd (sync_documents example_env
       [example_doc ''A'' ''a.pdf'' (Some ''T1''), null_name_doc] example_world)) = None"
proof -
  have "\<forall>d \<in> set [example_doc ''A'' ''a.pdf'' (Some ''T1'')]. \<not> eligibility_raises d"
    by (simp add: not_eligibility_raises_example_doc)
  from sync_documents_raises [OF this eligibility_raises_null_name_doc,
      of example_env "[]" example_world]
  show ?thesis by (auto simp: example_world_def)
qed

text \<open>
  Claim C7 fails on the code for the same kind of record: the \<open>TypeError\<close> raised by the
  eligibility check of a record with a \<open>null\<close> name reaches the caller of
  \<open>sync_documents\<close>; no report is returned and no failure entry is recorded.
\<close>

theorem sync_documents_null_name_raises:
  "fst (sync_documents example_env [null_name_doc] example_world)
     = Inl (TypeError ''expected str, bytes or os.PathLike object, not NoneType'')"
proof -
  have "\<forall>d \<in> set []. \<not> eligibility_raises d" by simp
  from sync_documents_raises [OF this eligibility_raises_null_name_doc,
      of example_env "[]" example_world]
  show ?thesis by auto
qed

section \<open>Batches without such a record\<close>

text \<open>
  When no record of the batch has a non-empty id and a \<open>null\<close> name, the loop returns and
  leaves the state file as it was, and \<open>sync_documents\<close> writes it once, with \<open>last_sync\<close>
  the clock reading taken when the loop has finished.
\<close>

lemma sync_documents_commits_once:
  assumes "\<forall>d \<in> set docs. \<not> eligibility_raises d"
  shows "\<exists>a2 w2 rep w4.
        sync_loop E docs (fst (start_sync E docs w)) (snd (start_sync E docs w)) = (Inr a2, w2)
        \<and> state_file w2 = state_file w \<and> state_writes w2 = state_writes w
        \<and> sync_documents E docs w = (Inr rep, w4)
        \<and> state_writes w4 = Suc (state_writes w)
        \<and> state_file w4 = Some ((acc_state a2)\<lparr>last_sync := Some (clock E (ticks w2)),
                                               failed_documents := acc_failed_docs a2\<rparr>)
        \<and> synced_count rep = acc_synced a2 \<and> failed_count rep = acc_failed a2
        \<and> report_failed_documents rep = acc_failed_docs a2
        \<and> total_processed rep = length docs"
proof -
  obtain a2 w2 where
    l: "sync_loop E docs (fst (start_sync E docs w)) (snd (start_sync E docs w)) = (Inr a2, w2)"
    using sync_loop_returns [OF assms] by blast
  from sync_loop_world [OF l]
  have f: "state_file w2 = state_file w" "state_writes w2 = state_writes w" by simp_all
  show ?thesis
    using l f by (simp add: sync_documents_eq [OF l] save_sync_state_def)
qed

lemma process_document_extract_raises:
  "extract_text E p = Inl e \<Longrightarrow> process_document E p = Inl e"
  by (simp add: process_document_def)

lemma process_document_split_raises:
  "extract_text E p = Inr t \<Longrightarrow> strip t \<noteq> [] \<Longrightarrow> split_text E t = Inl e
     \<Longrightarrow> process_document E p = Inl e"
  by (simp add: process_document_def Let_def)

lemma sync_loop_failure_list:
  assumes "sync_loop E ds a w = (Inr a', w')"
    and "acc_failed a = length (acc_failed_docs a)"
    and "\<forall>f \<in> set (acc_failed_docs a). fail_error f \<noteq> None"
  shows "acc_failed a' = length (acc_failed_docs a')
         \<and> (\<forall>f \<in> set (acc_failed_docs a'). fail_error f \<noteq> None)"
  using assms
proof (induction ds arbitrary: a w)
  case Nil
  then show ?case by simp
next
  case (Cons d ds)
  note step = sync_loop_Cons_step [of E d ds a w]
  show ?case
  proof (cases rule: sync_loop_single_cases [of d a E w])
    case (raised e)
    with Cons.prems(1) step show ?thesis by simp
  next
    case skipped
    with Cons.prems(1) step have "sync_loop E ds a w = (Inr a', w')" by simp
    from Cons.IH [OF this Cons.prems(2) Cons.prems(3)] show ?thesis .
  next
    case (synced k err v)
    let ?a1 = "a\<lparr>acc_state := (acc_state a)\<lparr>synced_documents := (synced_documents (acc_state a))
                      (k \<mapsto> \<lparr>entry_name = get_or_none (doc_name d),
                              entry_modified = doc_modified d,
                              entry_sync_date = clock E (ticks v)\<rparr>)\<rparr>,
                  acc_synced := acc_synced a + 1\<rparr>"
    from synced(5) Cons.prems(1) step
    have l: "sync_loop E ds ?a1 (v\<lparr>ticks := Suc (ticks v)\<rparr>) = (Inr a', w')" by simp
    have "acc_failed ?a1 = length (acc_failed_docs ?a1)"
      using Cons.prems(2) by simp
    moreover have "\<forall>f \<in> set (acc_failed_docs ?a1). fail_error f \<noteq> None"
      using Cons.prems(3) by simp
    ultimately show ?thesis by (rule Cons.IH [OF l])
  next
    case (failed err v)
    let ?a1 = "a\<lparr>acc_failed := acc_failed a + 1,
                  acc_failed_docs := acc_failed_docs a
                    @ [\<lparr>fail_id = doc_id d, fail_name = get_or_none (doc_name d),
                        fail_error = err\<rparr>]\<rparr>"
    from sync_document_result [OF failed(2)] have e: "err \<noteq> None" by simp
    from failed(3) Cons.prems(1) step
    have l: "sync_loop E ds ?a1 v = (Inr a', w')" by simp
    have "acc_failed ?a1 = length (acc_failed_docs ?a1)"
      using Cons.prems(2) by simp
    moreover have "\<forall>f \<in> set (acc_failed_docs ?a1). fail_error f \<noteq> None"
      using Cons.prems(3) e by simp
    ultimately show ?thesis by (rule Cons.IH [OF l])
  qed
qed

text \<open>
  What does hold of the per-document boundary: \<open>sync_document\<close> always returns, and an
  exception of the download, of extraction, of the splitter or of the store comes back
  as a failure with its message.
\<close>

lemma sync_document_catches_errors:
  "(\<exists>ok err w'. sync_document E d w = (Inr (ok, err), w') \<and> (ok \<longleftrightarrow> err = None))
   \<and> (download_document E (doc_id d) = Inl e \<longrightarrow>
        fst (sync_document E d w)
          = Inr (False, Some (''Error syncing document '' @ str_opt (document_name d)
                                @ '': '' @ str_exn e)))
   \<and> (download_document E (doc_id d) = Inr (Some p) \<and> p \<noteq> [] \<and> process_document E p = Inl e \<longrightarrow>
        fst (sync_document E d w)
          = Inr (False, Some (''Error syncing document '' @ str_opt (document_name d)
                                @ '': '' @ str_exn e)))"
proof (intro conjI impI)
  obtain ok err w' where r: "sync_document E d w = (Inr (ok, err), w')"
    using sync_document_returns by blast
  from sync_document_result [OF r] r
  show "\<exists>ok err w'. sync_document E d w = (Inr (ok, err), w') \<and> (ok \<longleftrightarrow> err = None)"
    by blast
next
  assume "download_document E (doc_id d) = Inl e"
  then show "fst (sync_document E d w)
          = Inr (False, Some (''Error syncing document '' @ str_opt (document_name d)
                                @ '': '' @ str_exn e))"
    by (rule sync_document_download_raises)
next
  assume a: "download_document E (doc_id d) = Inr (Some p) \<and> p \<noteq> [] \<and> process_document E p = Inl e"
  show "fst (sync_document E d w)
          = Inr (False, Some (''Error syncing document '' @ str_opt (document_name d)
                                @ '': '' @ str_exn e))"
    by (rule sync_document_processing_raises [of E d p e w]) (simp_all add: a)
qed

section \<open>Partial-failure isolation\<close>

lemma should_sync_document_cong:
  assumes "doc_id d = Some k" and "synced_documents st' k = synced_documents st k"
  shows "should_sync_document d st' = should_sync_document d st"
  using assms
  by (simp add: should_sync_document_def cong: option.case_cong sum.case_cong if_cong)

lemma all_eligible_Cons:
  assumes "sync_loop E [d] a w = (Inr a1, w1)"
  shows "all_eligible E (d # ds) a w \<longleftrightarrow>
         should_sync_document d (acc_state a) = Inr True \<and> all_eligible E ds a1 w1"
  using assms by simp

lemma all_eligible_append:
  assumes "all_eligible E (xs @ ys) a w"
  shows "all_eligible E xs a w
         \<and> (\<exists>a1 w1. sync_loop E xs a w = (Inr a1, w1) \<and> all_eligible E ys a1 w1)"
  using assms
proof (induction xs arbitrary: a w)
  case Nil
  then show ?case by simp
next
  case (Cons d xs)
  from Cons.prems obtain a1 w1 where
    s: "sync_loop E [d] a w = (Inr a1, w1)"
    and e: "should_sync_document d (acc_state a) = Inr True"
    and r: "all_eligible E (xs @ ys) a1 w1"
    by (auto split: prod.splits sum.splits)
  from Cons.IH [OF r] obtain a2 w2 where
    t: "all_eligible E xs a1 w1" "sync_loop E xs a1 w1 = (Inr a2, w2)" "all_eligible E ys a2 w2"
    by blast
  have "sync_loop E (d # xs) a w = (Inr a2, w2)"
    using s t(2) by (simp add: sync_loop_Cons_step [of E d xs])
  moreover have "all_eligible E (d # xs) a w"
    using s e t(1) by simp
  ultimately show ?case using t(3) by blast
qed

text \<open>Every document eligible, every attempt a success: all are counted, all have entries.\<close>

lemma sync_loop_entries_kept:
  assumes "sync_loop E ds a w = (Inr a', w')" and "synced_documents (acc_state a) k = Some e"
  shows "\<exists>e'. synced_documents (acc_state a') k = Some e'"
  using assms
proof (induction ds arbitrary: a w e)
  case Nil
  then show ?case by simp
next
  case (Cons d ds)
  note step = sync_loop_Cons_step [of E d ds a w]
  show ?case
  proof (cases rule: sync_loop_single_cases [of d a E w])
    case (raised x)
    with Cons.prems(1) step show ?thesis by simp
  next
    case skipped
    with Cons.prems(1) step have "sync_loop E ds a w = (Inr a', w')" by simp
    from Cons.IH [OF this Cons.prems(2)] show ?thesis .
  next
    case (synced j err v)
    let ?a1 = "a\<lparr>acc_state := (acc_state a)\<lparr>synced_documents := (synced_documents (acc_state a))
                      (j \<mapsto> \<lparr>entry_name = get_or_none (doc_name d),
                              entry_modified = doc_modified d,
                              entry_sync_date = clock E (ticks v)\<rparr>)\<rparr>,
                  acc_synced := acc_synced a + 1\<rparr>"
    from synced(5) Cons.prems(1) step
    have l: "sync_loop E ds ?a1 (v\<lparr>ticks := Suc (ticks v)\<rparr>) = (Inr a', w')" by simp
    obtain e1 where "synced_documents (acc_state ?a1) k = Some e1"
      using Cons.prems(2) by (cases "j = k") simp_all
    from Cons.IH [OF l this] show ?thesis .
  next
    case (failed err v)
    let ?a1 = "a\<lparr>acc_failed := acc_failed a + 1,
                  acc_failed_docs := acc_failed_docs a
                    @ [\<lparr>fail_id = doc_id d, fail_name = get_or_none (doc_name d),
                        fail_error = err\<rparr>]\<rparr>"
    from failed(3) Cons.prems(1) step
    have l: "sync_loop E ds ?a1 v = (Inr a', w')" by simp
    have "synced_documents (acc_state ?a1) k = Some e"
      using Cons.prems(2) by simp
    from Cons.IH [OF l this] show ?thesis .
  qed
qed

lemma sync_loop_all_succeed:
  assumes "all_eligible E ds a w"
    and "\<forall>d \<in> set ds. \<forall>v. fst (sync_document E d v) = Inr (True, None)"
  shows "\<exists>a' w'. sync_loop E ds a w = (Inr a', w')
           \<and> acc_synced a' = acc_synced a + length ds
           \<and> acc_failed a' = acc_failed a
           \<and> acc_failed_docs a' = acc_failed_docs a
           \<and> (\<forall>d \<in> set ds. \<exists>k e. doc_id d = Some k
                  \<and> synced_documents (acc_state a') k = Some e)"
  using assms
proof (induction ds arbitrary: a w)
  case Nil
  then show ?case by simp
next
  case (Cons d ds)
  note step = sync_loop_Cons_step [of E d ds a w]
  from Cons.prems(1) have el: "should_sync_document d (acc_state a) = Inr True" by simp
  from Cons.prems(2) have ok: "fst (sync_document E d w) = Inr (True, None)" by simp
  show ?case
  proof (cases rule: sync_loop_single_cases [of d a E w])
    case (raised x)
    with el show ?thesis by simp
  next
    case skipped
    with el show ?thesis by simp
  next
    case (failed err v)
    with ok show ?thesis by simp
  next
    case (synced k err v)
    let ?a1 = "a\<lparr>acc_state := (acc_state a)\<lparr>synced_documents := (synced_documents (acc_state a))
                      (k \<mapsto> \<lparr>entry_name = get_or_none (doc_name d),
                              entry_modified = doc_modified d,
                              entry_sync_date = clock E (ticks v)\<rparr>)\<rparr>,
                  acc_synced := acc_synced a + 1\<rparr>"
    let ?w1 = "v\<lparr>ticks := Suc (ticks v)\<rparr>"
    from Cons.prems(1) synced(5) have r: "all_eligible E ds ?a1 ?w1" by simp
    from Cons.prems(2) have oks: "\<forall>d \<in> set ds. \<forall>v. fst (sync_document E d v) = Inr (True, None)"
      by simp
    from Cons.IH [OF r oks] obtain a' w' where
      l: "sync_loop E ds ?a1 ?w1 = (Inr a', w')"
      and c: "acc_synced a' = acc_synced ?a1 + length ds" "acc_failed a' = acc_failed ?a1"
        "acc_failed_docs a' = acc_failed_docs ?a1"
      and en: "\<forall>d \<in> set ds. \<exists>k e. doc_id d = Some k
                  \<and> synced_documents (acc_state a') k = Some e"
      by blast
    have "synced_documents (acc_state ?a1) k
            = Some \<lparr>entry_name = get_or_none (doc_name d), entry_modified = doc_modified d,
                    entry_sync_date = clock E (ticks v)\<rparr>"
      by simp
    from sync_loop_entries_kept [OF l this] synced(2)
    have "\<exists>k e. doc_id d = Some k \<and> synced_documents (acc_state a') k = Some e"
      by blast
    with en have en': "\<forall>x \<in> set (d # ds). \<exists>k e. doc_id x = Some k
                  \<and> synced_documents (acc_state a') k = Some e"
      by simp
    have "sync_loop E (d # ds) a w = (Inr a', w')"
      using step synced(5) l by simp
    with c en' show ?thesis by simp
  qed
qed

lemma sync_document_download_fails:
  assumes "download_fails E d"
  shows "\<exists>msg w'. sync_document E d w = (Inr (False, Some msg), w')"
proof -
  obtain ok err w' where r: "sync_document E d w = (Inr (ok, err), w')"
    using sync_document_returns by blast
  from assms consider e where "download_document E (doc_id d) = Inl e"
    | "download_document E (doc_id d) = Inr None \<or> download_document E (doc_id d) = Inr (Some [])"
    by (auto simp: download_fails_def split: sum.splits option.splits)
  then have "\<exists>msg. fst (sync_document E d w) = Inr (False, Some msg)"
  proof cases
    case 1
    then show ?thesis using sync_document_download_raises [of E d e w] by simp
  next
    case 2
    then show ?thesis using sync_document_no_path [of E d w] by simp
  qed
  with r show ?thesis by auto
qed
text \<open>
  Documents with distinct ids that are eligible against the state at hand are eligible
  when the loop reaches them: an earlier document changes the entry of its own id only.
\<close>

lemma sync_loop_single_other_entries:
  assumes "sync_loop E [d] a w = (Inr a1, w1)" and "doc_id d \<noteq> Some k"
  shows "synced_documents (acc_state a1) k = synced_documents (acc_state a) k"
  using assms
  by (cases rule: sync_loop_single_cases [of d a E w]) auto

lemma all_eligible_distinct:
  assumes "\<forall>d \<in> set ds. should_sync_document d (acc_state a) = Inr True"
    and "distinct (map doc_id ds)"
  shows "all_eligible E ds a w"
  using assms
proof (induction ds arbitrary: a w)
  case Nil
  show ?case by simp
next
  case (Cons d ds a w)
  from Cons.prems(1) have el: "should_sync_document d (acc_state a) = Inr True" by simp
  then have "\<not> eligibility_raises d"
    using should_sync_document_raises_iff [of d "acc_state a"] by auto
  then obtain a1 w1 where s: "sync_loop E [d] a w = (Inr a1, w1)"
    using sync_loop_single_returns by blast
  have "\<forall>x \<in> set ds. should_sync_document x (acc_state a1) = Inr True"
  proof
    fix x assume x: "x \<in> set ds"
    with Cons.prems(1) have ex: "should_sync_document x (acc_state a) = Inr True" by simp
    then obtain k where k: "doc_id x = Some k" by (rule should_sync_document_True_id)
    from x Cons.prems(2) k have "doc_id d \<noteq> Some k" by force
    from sync_loop_single_other_entries [OF s this] k ex
    show "should_sync_document x (acc_state a1) = Inr True"
      by (simp add: should_sync_document_cong [of x k "acc_state a1" "acc_state a"])
  qed
  moreover from Cons.prems(2) have "distinct (map doc_id ds)" by simp
  ultimately have "all_eligible E ds a1 w1" by (rule Cons.IH)
  with s el show "all_eligible E (d # ds) a w" by simp
qed

text \<open>
  Claim C4: in a batch whose documents are all eligible when the loop reaches them, where
  the download of one document \<open>x\<close> fails and the attempt on every other document
  succeeds, \<open>sync_documents\<close> returns a report with \<open>synced_count\<close> the number of documents
  less one and \<open>failed_count = 1\<close>, whose failure list is the entry of \<open>x\<close> with an error
  message; the state written has an entry for every other document, those after \<open>x\<close>
  included.
\<close>

theorem one_failed_download_is_isolated:
  assumes "all_eligible E (pre @ x # post)
             (fst (start_sync E (pre @ x # post) w)) (snd (start_sync E (pre @ x # post) w))"
    and "download_fails E x"
    and "\<forall>d \<in> set pre \<union> set post. \<forall>v. fst (sync_document E d v) = Inr (True, None)"
  shows "\<exists>rep w' st msg.
           sync_documents E (pre @ x # post) w = (Inr rep, w')
           \<and> synced_count rep = length (pre @ x # post) - 1
           \<and> failed_count rep = 1
           \<and> report_failed_documents rep
               = [\<lparr>fail_id = doc_id x, fail_name = get_or_none (doc_name x),
                   fail_error = Some msg\<rparr>]
           \<and> \<not> report_success rep
           \<and> total_processed rep = length (pre @ x # post)
           \<and> state_file w' = Some st
           \<and> failed_documents st = report_failed_documents rep
           \<and> (\<forall>d \<in> set pre \<union> set post.
                 \<exists>k e. doc_id d = Some k \<and> synced_documents st k = Some e)"
proof -
  let ?docs = "pre @ x # post"
  let ?a0 = "fst (start_sync E ?docs w)"
  let ?w0 = "snd (start_sync E ?docs w)"
  from all_eligible_append [OF assms(1)] obtain a1 w1 where
    p: "all_eligible E pre ?a0 ?w0" "sync_loop E pre ?a0 ?w0 = (Inr a1, w1)"
      "all_eligible E (x # post) a1 w1"
    by blast
  from assms(3) have okpre: "\<forall>d \<in> set pre. \<forall>v. fst (sync_document E d v) = Inr (True, None)"
    and okpost: "\<forall>d \<in> set post. \<forall>v. fst (sync_document E d v) = Inr (True, None)"
    by auto
  from sync_loop_all_succeed [OF p(1) okpre] p(2)
  have c1: "acc_synced a1 = length pre" "acc_failed a1 = 0" "acc_failed_docs a1 = []"
    and e1: "\<forall>d \<in> set pre. \<exists>k e. doc_id d = Some k \<and> synced_documents (acc_state a1) k = Some e"
    by auto
  from p(3) have elx: "should_sync_document x (acc_state a1) = Inr True" by simp
  obtain msg v where rx: "sync_document E x w1 = (Inr (False, Some msg), v)"
    using sync_document_download_fails [OF assms(2)] by blast
  let ?a2 = "a1\<lparr>acc_failed := acc_failed a1 + 1,
               acc_failed_docs := acc_failed_docs a1
                 @ [\<lparr>fail_id = doc_id x, fail_name = get_or_none (doc_name x),
                     fail_error = Some msg\<rparr>]\<rparr>"
  have sx: "sync_loop E [x] a1 w1 = (Inr ?a2, v)"
    using sync_loop_failed [OF elx rx, of "[]"] by simp
  with p(3) have p3: "all_eligible E post ?a2 v" by simp
  from sync_loop_all_succeed [OF p3 okpost] obtain a3 w3 where
    l3: "sync_loop E post ?a2 v = (Inr a3, w3)"
    and c3: "acc_synced a3 = acc_synced ?a2 + length post" "acc_failed a3 = acc_failed ?a2"
      "acc_failed_docs a3 = acc_failed_docs ?a2"
    and e3: "\<forall>d \<in> set post. \<exists>k e. doc_id d = Some k \<and> synced_documents (acc_state a3) k = Some e"
    by blast
  have "\<forall>d \<in> set pre. \<exists>k e. doc_id d = Some k \<and> synced_documents (acc_state a3) k = Some e"
  proof
    fix d assume "d \<in> set pre"
    with e1 obtain k e where k: "doc_id d = Some k" "synced_documents (acc_state a1) k = Some e"
      by blast
    then have "synced_documents (acc_state ?a2) k = Some e" by simp
    from sync_loop_entries_kept [OF l3 this] k(1)
    show "\<exists>k e. doc_id d = Some k \<and> synced_documents (acc_state a3) k = Some e" by blast
  qed
  with e3 have e: "\<forall>d \<in> set pre \<union> set post.
      \<exists>k e. doc_id d = Some k \<and> synced_documents (acc_state a3) k = Some e"
    by blast
  have "sync_loop E (x # post) a1 w1 = (Inr a3, w3)"
    using sx l3 by (simp add: sync_loop_Cons_step [of E x post])
  with p(2) have l: "sync_loop E ?docs ?a0 ?w0 = (Inr a3, w3)"
    by (simp add: sync_loop_append)
  have cs: "acc_synced a3 = length ?docs - 1" "acc_failed a3 = 1"
    "acc_failed_docs a3 = [\<lparr>fail_id = doc_id x, fail_name = get_or_none (doc_name x),
                   fail_error = Some msg\<rparr>]"
    using c1 c3 by simp_all
  show ?thesis
    using cs e by (simp add: sync_documents_eq [OF l] save_sync_state_def)
qed
theorem one_failed_download_is_isolated_witness:
  "\<exists>rep w' st msg.
     sync_documents example_env
       [example_doc ''A'' ''a.pdf'' (Some ''T1''), example_doc ''B'' ''a.pdf'' (Some ''T1''),
        example_doc ''D'' ''a.pdf'' (Some ''T1'')] example_world = (Inr rep, w')
     \<and> synced_count rep = 2 \<and> failed_count rep = 1
     \<and> report_failed_documents rep
         = [\<lparr>fail_id = Some ''B'', fail_name = Some ''a.pdf'', fail_error = Some msg\<rparr>]
     \<and> state_file w' = Some st
     \<and> synced_documents st ''A'' \<noteq> None \<and> synced_documents st ''D'' \<noteq> None"
proof -
  let ?A = "example_doc ''A'' ''a.pdf'' (Some ''T1'')"
  let ?B = "example_doc ''B'' ''a.pdf'' (Some ''T1'')"
  let ?D = "example_doc ''D'' ''a.pdf'' (Some ''T1'')"
  let ?docs = "[?A] @ ?B # [?D]"
  have st0: "synced_documents (acc_state (fst (start_sync example_env ?docs example_world))) i = None"
    for i
    by (simp add: get_sync_state_def example_world_def)
  have "\<forall>d \<in> set ?docs.
          should_sync_document d (acc_state (fst (start_sync example_env ?docs example_world)))
            = Inr True"
    using st0 by (simp add: should_sync_example_doc_fresh del: start_sync_fields)
  moreover have "distinct (map doc_id ?docs)"
    by (simp add: example_doc_def)
  ultimately have el: "all_eligible example_env ?docs
      (fst (start_sync example_env ?docs example_world))
      (snd (start_sync example_env ?docs example_world))"
    by (rule all_eligible_distinct)
  have fB: "download_fails example_env ?B"
    by (simp add: download_fails_def example_env_def example_doc_def)
  have ok: "\<forall>d \<in> set [?A] \<union> set [?D]. \<forall>v. fst (sync_document example_env d v) = Inr (True, None)"
    by (simp add: sync_document_example_ok_fst)
  from one_failed_download_is_isolated [OF el fB ok]
  obtain rep w' st msg where
    r: "sync_documents example_env ?docs example_world = (Inr rep, w')"
      "synced_count rep = length ?docs - 1" "failed_count rep = 1"
      "report_failed_documents rep
         = [\<lparr>fail_id = doc_id ?B, fail_name = get_or_none (doc_name ?B), fail_error = Some msg\<rparr>]"
      "state_file w' = Some st"
      "\<forall>d \<in> set [?A] \<union> set [?D]. \<exists>k e. doc_id d = Some k \<and> synced_documents st k = Some e"
    by blast
  from r(6) have "synced_documents st ''A'' \<noteq> None \<and> synced_documents st ''D'' \<noteq> None"
    by (auto simp: example_doc_def)
  moreover from r(4) have "report_failed_documents rep
         = [\<lparr>fail_id = Some ''B'', fail_name = Some ''a.pdf'', fail_error = Some msg\<rparr>]"
    by (simp add: example_doc_def get_or_none_def)
  moreover from r(2) have "synced_count rep = 2" by simp
  ultimately show ?thesis using r(1) r(3) r(5) by auto
qed

section \<open>The fingerprint invariant\<close>

lemma entry_matches_cong:
  "synced_documents st' k = synced_documents st k \<Longrightarrow>
     entry_matches st' k c = entry_matches st k c"
  by (simp add: entry_matches_def)






end
